theory Spec2Isabelle
  imports Main "HOL-Library.Word"
begin

unbundle bit_operations_syntax

section \<open>Python values\<close>

text \<open>
  The embedding follows \<^verbatim>\<open>src/yt-browser5.py\<close>. Python integers are unbounded
  (\<open>int\<close>); a Python string is the list of its characters (\<open>string\<close>), a character
  being a code point below 256; an exception that the source lets escape is a value of
  \<open>py_error\<close>.
\<close>

datatype py_error =
  ValueError | IndexError | KeyError | TypeError | AttributeError | OSError | UnboundLocalError

text \<open>
  \<^verbatim>\<open>xs[i]\<close>: the positions \<open>0\<close> to \<open>len(xs) - 1\<close> count from the front, \<open>-1\<close> down
  to \<open>-len(xs)\<close> from the back; \<open>None\<close> stands for \<^verbatim>\<open>IndexError\<close>.
\<close>

definition py_index :: "'a list \<Rightarrow> int \<Rightarrow> 'a option" where
  "py_index xs i =
     (if 0 \<le> i \<and> i < int (length xs) then Some (xs ! nat i)
      else if - int (length xs) \<le> i \<and> i < 0 then Some (xs ! nat (int (length xs) + i))
      else None)"

text \<open>\<^verbatim>\<open>xs.index(x)\<close>: the first position of \<open>x\<close>; \<open>None\<close> is \<^verbatim>\<open>ValueError\<close>.\<close>

fun index_of :: "'a list \<Rightarrow> 'a \<Rightarrow> nat option" where
  "index_of [] x = None"
| "index_of (y # ys) x = (if y = x then Some 0 else map_option Suc (index_of ys x))"

text \<open>\<^verbatim>\<open>xs[-n:]\<close> for a positive \<open>n\<close>: the last \<open>n\<close> elements, all of them when there are fewer.\<close>

definition last_n :: "nat \<Rightarrow> 'a list \<Rightarrow> 'a list" where
  "last_n n xs = drop (length xs - n) xs"

subsection \<open>Strings\<close>

text \<open>The character class \<^verbatim>\<open>[0-9]\<close> of the regular expressions.\<close>

definition is_digit :: "char \<Rightarrow> bool" where
  "is_digit c \<longleftrightarrow> c \<in> set ''0123456789''"

text \<open>
  What \<^verbatim>\<open>str.strip()\<close> removes, the characters \<open>c\<close> with \<^verbatim>\<open>c.isspace()\<close>: tab, line
  feed, vertical tab, form feed, carriage return, the four separators 0x1C-0x1F, the space,
  next line (U+0085) and the no-break space (U+00A0).
\<close>

definition is_space :: "char \<Rightarrow> bool" where
  "is_space c \<longleftrightarrow>
     c \<in> set [CHR 0x09, CHR 0x0A, CHR 0x0B, CHR 0x0C, CHR 0x0D,
               CHR 0x1C, CHR 0x1D, CHR 0x1E, CHR 0x1F, CHR '' '', CHR 0x85, CHR 0xA0]"

definition lstrip :: "string \<Rightarrow> string" where
  "lstrip s = dropWhile is_space s"

definition rstrip :: "string \<Rightarrow> string" where
  "rstrip s = rev (dropWhile is_space (rev s))"

definition strip :: "string \<Rightarrow> string" where
  "strip s = rstrip (lstrip s)"

text \<open>\<^verbatim>\<open>s.replace('\n', ' ')\<close>.\<close>

definition replace_newlines :: "string \<Rightarrow> string" where
  "replace_newlines s = map (\<lambda>c. if c = CHR 0x0A then CHR '' '' else c) s"

text \<open>\<^verbatim>\<open>s.lower()\<close> on ASCII text.\<close>

definition lower_char :: "char \<Rightarrow> char" where
  "lower_char c =
     (case map_of (zip ''ABCDEFGHIJKLMNOPQRSTUVWXYZ'' ''abcdefghijklmnopqrstuvwxyz'') c of
        Some d \<Rightarrow> d
      | None \<Rightarrow> c)"

definition lower :: "string \<Rightarrow> string" where
  "lower s = map lower_char s"

text \<open>\<^verbatim>\<open>str(n)\<close> for a natural number and for an integer.\<close>

fun str_nat :: "nat \<Rightarrow> string" where
  "str_nat n =
     (if n < 10 then [''0123456789'' ! n]
      else str_nat (n div 10) @ [''0123456789'' ! (n mod 10)])"

declare str_nat.simps [simp del]

definition str_int :: "int \<Rightarrow> string" where
  "str_int i = (if i < 0 then ''-'' @ str_nat (nat (- i)) else str_nat (nat i))"

text \<open>\<^verbatim>\<open>str(b).lower()\<close> for a Boolean.\<close>

definition str_bool_lower :: "bool \<Rightarrow> string" where
  "str_bool_lower b = (if b then ''true'' else ''false'')"

text \<open>\<^verbatim>\<open>sub in s\<close>: \<open>sub\<close> occurs in \<open>s\<close> as a contiguous substring.\<close>

fun contains :: "string \<Rightarrow> string \<Rightarrow> bool" where
  "contains sub [] = (sub = [])"
| "contains sub (c # cs) = (take (length sub) (c # cs) = sub \<or> contains sub cs)"

text \<open>\<^verbatim>\<open>s.split(' ')[0]\<close>: the text before the first space.\<close>

definition first_token :: "string \<Rightarrow> string" where
  "first_token s = takeWhile (\<lambda>c. c \<noteq> CHR '' '') s"

text \<open>
  \<^verbatim>\<open>re.sub(r'^[0-9]+ ', '', t)\<close> (lines 336, 490, 581): a non-empty run of digits at
  the start, followed by a space, is removed. The run is the maximal one: a shorter run
  is followed by a digit, not by a space.
\<close>

definition has_ordinal :: "string \<Rightarrow> bool" where
  "has_ordinal t \<longleftrightarrow> takeWhile is_digit t \<noteq> [] \<and> take 1 (dropWhile is_digit t) = '' ''"

definition strip_ordinal :: "string \<Rightarrow> string" where
  "strip_ordinal t = (if has_ordinal t then drop 1 (dropWhile is_digit t) else t)"

text \<open>
  \<^verbatim>\<open>re.sub(r'^[^0-9]*  ', '', selection)\<close> (line 464): a run of non-digits at the start
  that ends in two spaces is removed. The run is greedy, so the match is first looked for
  further right; \<open>icon_match\<close> returns what follows the match.
\<close>

fun icon_match :: "string \<Rightarrow> string option" where
  "icon_match [] = None"
| "icon_match (c # cs) =
     (case (if is_digit c then None else icon_match cs) of
        Some r \<Rightarrow> Some r
      | None \<Rightarrow> (if c = CHR '' '' \<and> take 1 cs = '' '' then Some (drop 1 cs) else None))"

definition strip_icon :: "string \<Rightarrow> string" where
  "strip_icon selection = (case icon_match selection of Some r \<Rightarrow> r | None \<Rightarrow> selection)"

section \<open>Configuration\<close>

text \<open>
  The keys of the dictionary \<^verbatim>\<open>CONFIG\<close> that \<^verbatim>\<open>playlist_explorer\<close> reads.
  \<^verbatim>\<open>CONFIG\<close> starts as a copy of \<^verbatim>\<open>DEFAULT_CONFIG\<close> and keys are never removed, so
  every key is present. \<open>NO_OF_SEARCH_RESULTS\<close> holds the value of
  \<^verbatim>\<open>int(CONFIG["NO_OF_SEARCH_RESULTS"])\<close>, which \<^verbatim>\<open>load_config\<close> (line 225) has
  already computed once before any search.
\<close>

record config =
  NO_OF_SEARCH_RESULTS :: int
  ENABLE_PREVIEW :: string
  PREFERRED_SELECTOR :: string
  PLAYER :: string
  AUDIO_ONLY_MODE :: string
  AUTOPLAY_MODE :: string

section \<open>Pagination window (globals \<open>PLAYLIST_START\<close>, \<open>PLAYLIST_END\<close>)\<close>

text \<open>
  The two module-level globals of \<^verbatim>\<open>yt-browser5.py\<close> (lines 63-64) that
  \<^verbatim>\<open>run_yt_dlp\<close> passes to \<^verbatim>\<open>--playlist-start\<close> and \<^verbatim>\<open>--playlist-end\<close>.
  Python integers are unbounded, hence \<open>int\<close>. The page size \<open>P\<close> stands for
  \<^verbatim>\<open>int(CONFIG["NO_OF_SEARCH_RESULTS"])\<close>.
\<close>

record window =
  PLAYLIST_START :: int
  PLAYLIST_END :: int

text \<open>Line 63 and line 225 of \<^verbatim>\<open>load_config\<close>: the window a session starts with.\<close>

definition initial_window :: "int \<Rightarrow> window" where
  "initial_window P = \<lparr>PLAYLIST_START = 1, PLAYLIST_END = P\<rparr>"

text \<open>Lines 468-469 (and 570-571): the selection \<^verbatim>\<open>Next\<close>.\<close>

definition next_window :: "int \<Rightarrow> window \<Rightarrow> window" where
  "next_window P w =
     \<lparr>PLAYLIST_START = PLAYLIST_START w + P, PLAYLIST_END = PLAYLIST_END w + P\<rparr>"

text \<open>Lines 474-478: the selection \<^verbatim>\<open>Previous\<close>, with its two clamps.\<close>

definition previous_window :: "int \<Rightarrow> window \<Rightarrow> window" where
  "previous_window P w =
     (let s = PLAYLIST_START w - P;
          s' = (if s \<le> 0 then 1 else s);
          e = PLAYLIST_END w - P;
          min_end = P;
          e' = (if e < min_end then min_end else e)
      in \<lparr>PLAYLIST_START = s', PLAYLIST_END = e'\<rparr>)"

datatype nav = Next | Previous

fun nav_step :: "int \<Rightarrow> window \<Rightarrow> nav \<Rightarrow> window" where
  "nav_step P w Next = next_window P w"
| "nav_step P w Previous = previous_window P w"

text \<open>A sequence of navigation steps, applied from left to right.\<close>

fun navigate :: "int \<Rightarrow> window \<Rightarrow> nav list \<Rightarrow> window" where
  "navigate P w [] = w"
| "navigate P w (n # ns) = navigate P (nav_step P w n) ns"

text \<open>The window is the inclusive range of \<open>P\<close> results that starts at \<open>PLAYLIST_START\<close>.\<close>

definition window_ok :: "int \<Rightarrow> window \<Rightarrow> bool" where
  "window_ok P w \<longleftrightarrow> 1 \<le> PLAYLIST_START w \<and> PLAYLIST_END w - PLAYLIST_START w = P - 1"


section \<open>Search history (\<^verbatim>\<open>main_menu\<close>, \<^verbatim>\<open>prompt\<close>)\<close>

text \<open>
  The file \<^verbatim>\<open>search_history.txt\<close> is its text, \<open>None\<close> when it does not exist. Reading
  and writing the file are taken to succeed.

  Reading (\<^verbatim>\<open>for l in f\<close>, lines 247, 657 and 678) goes through the lines of the text; in
  text mode a line ends at a line feed, at a carriage return or at the two in a row.
  \<open>split_lines\<close> gives the lines without their ends. The code strips every line, which
  removes the end, and drops the lines that are then empty, so that the two characters of
  \<^verbatim>\<open>\r\n\<close>, taken one by one, add an empty line that changes nothing.
\<close>

definition is_line_break :: "char \<Rightarrow> bool" where
  "is_line_break c \<longleftrightarrow> c = CHR 0x0A \<or> c = CHR 0x0D"

fun split_lines :: "string \<Rightarrow> string list" where
  "split_lines [] = []"
| "split_lines (c # cs) =
     (if is_line_break c then [] # split_lines cs
      else (case split_lines cs of [] \<Rightarrow> [[c]] | l # ls \<Rightarrow> (c # l) # ls))"

text \<open>Lines 247 and 657: the entries read from the file.\<close>

definition history_lines :: "string option \<Rightarrow> string list" where
  "history_lines f =
     (case f of
        None \<Rightarrow> []
      | Some content \<Rightarrow> [strip l. l \<leftarrow> split_lines content, strip l \<noteq> []])"

text \<open>Lines 675-680: the list \<^verbatim>\<open>lines\<close> of a search for \<open>search_term\<close>.\<close>

definition history_update :: "string option \<Rightarrow> string \<Rightarrow> string list" where
  "history_update f search_term =
     (case f of
        None \<Rightarrow> []
      | Some content \<Rightarrow>
          [strip l. l \<leftarrow> split_lines content, strip l \<noteq> [] \<and> strip l \<noteq> search_term])
     @ [search_term]"

text \<open>Line 681: the text written, \<^verbatim>\<open>"\n".join(lines) + "\n"\<close>.\<close>

fun join_newline :: "string list \<Rightarrow> string" where
  "join_newline [] = []"
| "join_newline [l] = l"
| "join_newline (l # ls) = l @ CHR 0x0A # join_newline ls"

definition write_history :: "string list \<Rightarrow> string" where
  "write_history ls = join_newline ls @ [CHR 0x0A]"

text \<open>One search after the other, each reading the file the previous one wrote.\<close>

fun searches :: "string option \<Rightarrow> string list \<Rightarrow> string option" where
  "searches f [] = f"
| "searches f (t # ts) = searches (Some (write_history (history_update f t))) ts"

text \<open>
  Lines 247-249 of \<^verbatim>\<open>prompt\<close>: the history shown to the user, the last ten entries of
  the file, most recent first.
\<close>

definition shown_history :: "string option \<Rightarrow> string list" where
  "shown_history f = rev (last_n 10 (history_lines f))"

text \<open>
  An entry of the history is a non-empty line without surrounding white space and without
  line break: what the prompt returns (\<^verbatim>\<open>input().strip()\<close>, line 270) when a search
  is made. A term given on the command line (\<^verbatim>\<open>--search\<close>) need not be one.
\<close>

definition is_entry :: "string \<Rightarrow> bool" where
  "is_entry l \<longleftrightarrow> strip l = l \<and> l \<noteq> [] \<and> list_all (\<lambda>c. \<not> is_line_break c) l"

section \<open>SHA-256 (\<^verbatim>\<open>hashlib.sha256\<close>)\<close>

text \<open>
  The digest of the standard library, as FIPS 180-4 defines it: 32-bit words, a message of
  bytes (numbers below 256), the padding to blocks of 16 words, the message schedule of 64
  words and the 64 rounds of the compression of a block.
\<close>

type_synonym w32 = "32 word"

text \<open>The 64 round constants, in the eight rows of the table of the standard.\<close>

definition K256 :: "w32 list" where
  "K256 = concat
     [[0x428a2f98, 0x71374491, 0xb5c0fbcf, 0xe9b5dba5, 0x3956c25b, 0x59f111f1, 0x923f82a4, 0xab1c5ed5],
      [0xd807aa98, 0x12835b01, 0x243185be, 0x550c7dc3, 0x72be5d74, 0x80deb1fe, 0x9bdc06a7, 0xc19bf174],
      [0xe49b69c1, 0xefbe4786, 0x0fc19dc6, 0x240ca1cc, 0x2de92c6f, 0x4a7484aa, 0x5cb0a9dc, 0x76f988da],
      [0x983e5152, 0xa831c66d, 0xb00327c8, 0xbf597fc7, 0xc6e00bf3, 0xd5a79147, 0x06ca6351, 0x14292967],
      [0x27b70a85, 0x2e1b2138, 0x4d2c6dfc, 0x53380d13, 0x650a7354, 0x766a0abb, 0x81c2c92e, 0x92722c85],
      [0xa2bfe8a1, 0xa81a664b, 0xc24b8b70, 0xc76c51a3, 0xd192e819, 0xd6990624, 0xf40e3585, 0x106aa070],
      [0x19a4c116, 0x1e376c08, 0x2748774c, 0x34b0bcb5, 0x391c0cb3, 0x4ed8aa4a, 0x5b9cca4f, 0x682e6ff3],
      [0x748f82ee, 0x78a5636f, 0x84c87814, 0x8cc70208, 0x90befffa, 0xa4506ceb, 0xbef9a3f7, 0xc67178f2]]"

definition rotr :: "nat \<Rightarrow> w32 \<Rightarrow> w32" where
  "rotr n x = drop_bit n x OR push_bit (32 - n) x"

definition Ch :: "w32 \<Rightarrow> w32 \<Rightarrow> w32 \<Rightarrow> w32" where
  "Ch x y z = (x AND y) XOR (NOT x AND z)"

definition Maj :: "w32 \<Rightarrow> w32 \<Rightarrow> w32 \<Rightarrow> w32" where
  "Maj x y z = (x AND y) XOR (x AND z) XOR (y AND z)"

definition Sigma0 :: "w32 \<Rightarrow> w32" where
  "Sigma0 x = rotr 2 x XOR rotr 13 x XOR rotr 22 x"

definition Sigma1 :: "w32 \<Rightarrow> w32" where
  "Sigma1 x = rotr 6 x XOR rotr 11 x XOR rotr 25 x"

definition sigma0 :: "w32 \<Rightarrow> w32" where
  "sigma0 x = rotr 7 x XOR rotr 18 x XOR drop_bit 3 x"

definition sigma1 :: "w32 \<Rightarrow> w32" where
  "sigma1 x = rotr 17 x XOR rotr 19 x XOR drop_bit 10 x"

definition schedule_step :: "nat \<Rightarrow> w32 list \<Rightarrow> w32 list" where
  "schedule_step t ws =
     ws @ [sigma1 (ws ! (t - 2)) + ws ! (t - 7) + sigma0 (ws ! (t - 15)) + ws ! (t - 16)]"

definition schedule :: "w32 list \<Rightarrow> w32 list" where
  "schedule blk = fold schedule_step [16..<64] blk"

type_synonym regs = "w32 \<times> w32 \<times> w32 \<times> w32 \<times> w32 \<times> w32 \<times> w32 \<times> w32"

fun sha_round :: "regs \<Rightarrow> w32 \<times> w32 \<Rightarrow> regs" where
  "sha_round (a, b, c, d, e, f, g, h) (k, w) =
     (let t1 = h + Sigma1 e + Ch e f g + k + w;
          t2 = Sigma0 a + Maj a b c
      in (t1 + t2, a, b, c, d + t1, e, f, g))"

fun add_regs :: "regs \<Rightarrow> regs \<Rightarrow> regs" where
  "add_regs (a, b, c, d, e, f, g, h) (a', b', c', d', e', f', g', h') =
     (a + a', b + b', c + c', d + d', e + e', f + f', g + g', h + h')"

definition compress :: "regs \<Rightarrow> w32 list \<Rightarrow> regs" where
  "compress hs blk = add_regs hs (foldl sha_round hs (zip K256 (schedule blk)))"

text \<open>
  The padding: the byte 0x80, zero bytes up to 8 bytes before the end of a block, and the
  length of the message in bits as 8 bytes, the most significant first.
\<close>

definition pad :: "nat list \<Rightarrow> nat list" where
  "pad m =
     m @ [128] @ replicate ((119 - length m mod 64) mod 64) 0
       @ map (\<lambda>i. (8 * length m) div 256 ^ i mod 256) [7, 6, 5, 4, 3, 2, 1, 0]"

fun words_of :: "nat list \<Rightarrow> w32 list" where
  "words_of (a # b # c # d # r) = of_nat (((a * 256 + b) * 256 + c) * 256 + d) # words_of r"
| "words_of r = []"

fun blocks :: "nat \<Rightarrow> w32 list \<Rightarrow> w32 list list" where
  "blocks 0 ws = []"
| "blocks (Suc n) ws = take 16 ws # blocks n (drop 16 ws)"

definition H256 :: regs where
  "H256 = (0x6a09e667, 0xbb67ae85, 0x3c6ef372, 0xa54ff53a,
           0x510e527f, 0x9b05688c, 0x1f83d9ab, 0x5be0cd19)"

definition sha256 :: "nat list \<Rightarrow> regs" where
  "sha256 m = (let ws = words_of (pad m) in foldl compress H256 (blocks (length ws div 16) ws))"

text \<open>\<^verbatim>\<open>hexdigest()\<close>: the eight words in lower-case hexadecimal digits.\<close>

definition hex32 :: "w32 \<Rightarrow> string" where
  "hex32 x = map (\<lambda>i. ''0123456789abcdef'' ! (unat x div 16 ^ i mod 16)) [7, 6, 5, 4, 3, 2, 1, 0]"

fun hexdigest :: "regs \<Rightarrow> string" where
  "hexdigest (a, b, c, d, e, f, g, h) = concat (map hex32 [a, b, c, d, e, f, g, h])"

definition sha256_hexdigest :: "nat list \<Rightarrow> string" where
  "sha256_hexdigest m = hexdigest (sha256 m)"

text \<open>\<^verbatim>\<open>text.encode('utf-8')\<close>: one byte for a character below 128, two bytes above.\<close>

definition encode_utf8 :: "string \<Rightarrow> nat list" where
  "encode_utf8 s =
     concat (map (\<lambda>c. if of_char c < (128::nat) then [of_char c]
                        else [192 + of_char c div 64, 128 + of_char c mod 64]) s)"

section \<open>Text previews (\<^verbatim>\<open>generate_text_preview\<close>)\<close>

text \<open>Line 336: the title that is hashed.\<close>

definition clean_title_of :: "string \<Rightarrow> string" where
  "clean_title_of raw_title = replace_newlines (strip_ordinal raw_title)"

text \<open>Lines 89-92.\<close>

definition generate_sha256 :: "string option \<Rightarrow> string" where
  "generate_sha256 text =
     sha256_hexdigest (encode_utf8 (case text of None \<Rightarrow> [] | Some t \<Rightarrow> t))"

text \<open>Lines 334-337: the key of the text artifact of a title, and its file name (line 399).\<close>

definition filename_hash :: "string \<Rightarrow> string" where
  "filename_hash raw_title = generate_sha256 (Some (clean_title_of raw_title))"

definition text_artifact :: "string \<Rightarrow> string" where
  "text_artifact raw_title = filename_hash raw_title @ ''.txt''"

text \<open>Lines 370-376: the relative upload time for a difference \<open>diff\<close> in seconds.\<close>

definition relative_time :: "int \<Rightarrow> string" where
  "relative_time diff =
     (if diff < 60 then ''just now''
      else if diff < 3600 then str_int (diff div 60) @ '' minutes ago''
      else if diff < 86400 then str_int (diff div 3600) @ '' hours ago''
      else if diff < 604800 then str_int (diff div 86400) @ '' days ago''
      else if diff < 2635200 then str_int (diff div 604800) @ '' weeks ago''
      else if diff < 31622400 then str_int (diff div 2635200) @ '' months ago''
      else str_int (diff div 31622400) @ '' years ago'')"

text \<open>
  Lines 365-377: an absent or zero timestamp gives the empty string. \<open>current_time\<close> is
  the global \<^verbatim>\<open>CURRENT_TIME\<close>.
\<close>

definition timestamp_str :: "int \<Rightarrow> int option \<Rightarrow> string" where
  "timestamp_str current_time ts =
     (case ts of
        None \<Rightarrow> []
      | Some t \<Rightarrow> if t = 0 then [] else relative_time (current_time - t))"

section \<open>Entries and pages\<close>

text \<open>
  An entry of the metadata source is a non-empty JSON object; the keys read by the code are
  \<^verbatim>\<open>id\<close>, \<^verbatim>\<open>title\<close> and \<^verbatim>\<open>url\<close>, each a string or absent. A page is the list
  under \<^verbatim>\<open>entries\<close>; a hole (\<^verbatim>\<open>null\<close>) is \<open>None\<close>.
\<close>

record entry =
  entry_id :: "string option"
  entry_title :: "string option"
  entry_url :: "string option"

type_synonym page = "entry option list"

text \<open>Lines 444-445: the ordinal of the entry at position \<open>i\<close> of a page of \<open>n\<close> entries.\<close>

definition ordinal :: "nat \<Rightarrow> nat \<Rightarrow> string" where
  "ordinal n i =
     (let num = str_nat (i + 1) in if n < 10 \<and> length num < 2 then ''0'' @ num else num)"

text \<open>Lines 446-447: the annotated title.\<close>

definition annotate_title :: "nat \<Rightarrow> nat \<Rightarrow> string option \<Rightarrow> string" where
  "annotate_title n i t =
     ordinal n i @ '' '' @ replace_newlines (case t of None \<Rightarrow> [] | Some x \<Rightarrow> x)"

text \<open>Lines 442-448: every entry that is not a hole gets its annotated title.\<close>

definition annotate :: "page \<Rightarrow> page" where
  "annotate es =
     map (\<lambda>(i, e). map_option
            (\<lambda>v. v\<lparr>entry_title := Some (annotate_title (length es) i (entry_title v))\<rparr>) e)
         (enumerate 0 es)"

section \<open>Related autoplay (lines 593-609)\<close>

text \<open>
  What \<^verbatim>\<open>json.loads\<close> makes of the output of the mix request: no JSON at all, or a
  payload, whose \<^verbatim>\<open>entries\<close> are \<open>None\<close> when the payload is empty or has no such key.
\<close>

datatype mix_fetch = MixUnparsable | MixPayload "page option"

datatype related = Selected entry | NoRelated | FetchFailed

text \<open>
  Lines 597-603: the loop over the entries. \<^verbatim>\<open>entry.get\<close> on a hole raises, which the
  bare \<^verbatim>\<open>except\<close> of line 607 turns into a failed fetch.
\<close>

fun first_other :: "string option \<Rightarrow> page \<Rightarrow> related" where
  "first_other vid_id [] = NoRelated"
| "first_other vid_id (None # es) = FetchFailed"
| "first_other vid_id (Some e # es) =
     (if entry_id e \<noteq> vid_id then Selected e else first_other vid_id es)"

definition related_next :: "string option \<Rightarrow> mix_fetch \<Rightarrow> related" where
  "related_next vid_id mix_data =
     (case mix_data of
        MixUnparsable \<Rightarrow> FetchFailed
      | MixPayload None \<Rightarrow> NoRelated
      | MixPayload (Some es) \<Rightarrow> first_other vid_id es)"

section \<open>The explorer (\<^verbatim>\<open>playlist_explorer\<close>)\<close>

text \<open>
  The collaborators of the session. Each call is answered by the outside world; the
  \<open>clock\<close> of the state counts the calls made so far, and the answer to a call is a function
  of that count, so that any sequence of answers is some \<open>world\<close>.
  \<^item> \<open>launcher\<close>: the line chosen in the selector;
  \<^item> \<open>run_yt_dlp\<close>: the page fetched for a window, \<open>None\<close> when \<^verbatim>\<open>run_yt_dlp\<close> returns
    \<^verbatim>\<open>None\<close> or a payload that is empty or has no \<^verbatim>\<open>entries\<close>;
  \<^item> \<open>player\<close>: how the player process ended;
  \<^item> \<open>mix\<close>: the answer to the request for the related mix;
  \<^item> \<open>py_int\<close>: the built-in \<^verbatim>\<open>int\<close> on strings, \<open>None\<close> for \<^verbatim>\<open>ValueError\<close>.
\<close>

datatype player_exit = Returncode int | KeyboardInterrupt | NotStarted

record world =
  launcher :: "nat \<Rightarrow> string"
  run_yt_dlp :: "nat \<Rightarrow> window \<Rightarrow> page option"
  player :: "nat \<Rightarrow> player_exit"
  mix :: "nat \<Rightarrow> mix_fetch"
  py_int :: "string \<Rightarrow> int option"

text \<open>
  The globals and locals of \<^verbatim>\<open>playlist_explorer\<close>; \<open>played\<close> and \<open>downloads\<close> record the
  urls handed to the player and to the download job.
\<close>

record explorer =
  globals :: window
  CONFIG :: config
  audio_only_mode :: bool
  autoplay_mode :: string
  download_images :: bool
  search_results :: "page option"
  entries :: page
  current_index :: int
  video :: "entry option"
  clean_title :: "string option"
  vid_url :: "string option"
  clock :: nat
  played :: "string list"
  downloads :: "string list"

text \<open>Lines 515-519: Toggle Audio Only.\<close>

definition toggle_audio_only :: "explorer \<Rightarrow> explorer" where
  "toggle_audio_only s =
     (let a = \<not> audio_only_mode s
      in s\<lparr>audio_only_mode := a, CONFIG := (CONFIG s)\<lparr>AUDIO_ONLY_MODE := str_bool_lower a\<rparr>\<rparr>)"

text \<open>Lines 521-527: Toggle Autoplay. \<^verbatim>\<open>modes.index\<close> raises for a mode not in the list.\<close>

definition modes :: "string list" where
  "modes = [''off'', ''playlist'', ''related'']"

definition next_mode :: "string \<Rightarrow> py_error + string" where
  "next_mode m =
     (case index_of modes m of
        None \<Rightarrow> Inl ValueError
      | Some curr_idx \<Rightarrow> Inr (modes ! ((curr_idx + 1) mod length modes)))"

definition toggle_autoplay :: "explorer \<Rightarrow> py_error + explorer" where
  "toggle_autoplay s =
     (case next_mode (autoplay_mode s) of
        Inl e \<Rightarrow> Inl e
      | Inr m \<Rightarrow> Inr (s\<lparr>autoplay_mode := m, CONFIG := (CONFIG s)\<lparr>AUTOPLAY_MODE := m\<rparr>\<rparr>))"

text \<open>
  The three nested loops of \<^verbatim>\<open>playlist_explorer\<close>: the list of results (line 436), the
  action menu (line 494) and the autoplay loop (line 533). One iteration of a loop ends by
  going to the head of a loop, by leaving the outer loop, by \<^verbatim>\<open>byebye()\<close> or by an
  exception that nothing catches.
\<close>

datatype pc = ListLoop | MenuLoop | AutoplayLoop

datatype control = Goto pc explorer | Break explorer | Exit | Raise py_error

text \<open>Lines 437-491: one iteration of the list loop.\<close>

definition list_iter :: "world \<Rightarrow> explorer \<Rightarrow> control" where
  "list_iter W s =
     (case search_results s of
        None \<Rightarrow> Break s
      | Some page \<Rightarrow>
          let P = NO_OF_SEARCH_RESULTS (CONFIG s);
              es = (if download_images s then page else annotate page);
              s1 = s\<lparr>search_results := Some es, entries := es\<rparr>;
              s2 = (if ENABLE_PREVIEW (CONFIG s) = ''true''
                       \<and> PREFERRED_SELECTOR (CONFIG s) = ''fzf'' \<and> \<not> download_images s
                    then s1\<lparr>download_images := True\<rparr> else s1);
              selection = strip_icon (launcher W (clock s2));
              s3 = s2\<lparr>clock := clock s2 + 1\<rparr>
          in if selection = ''Next'' then
               (let g = next_window P (globals s3)
                in Goto ListLoop
                     (s3\<lparr>globals := g, search_results := run_yt_dlp W (clock s3) g,
                         clock := clock s3 + 1, download_images := False\<rparr>))
             else if selection = ''Previous'' then
               (let g = previous_window P (globals s3)
                in Goto ListLoop
                     (s3\<lparr>globals := g, search_results := run_yt_dlp W (clock s3) g,
                         clock := clock s3 + 1, download_images := False\<rparr>))
             else if selection \<in> {''Back'', [], ''Exit''} then
               (if selection = ''Exit'' then Exit else Break s3)
             else
               (case py_int W (first_token selection) of
                  None \<Rightarrow> Goto ListLoop s3
                | Some sel_id \<Rightarrow>
                    let s4 = s3\<lparr>current_index := sel_id - 1\<rparr>
                    in (case py_index es (sel_id - 1) of
                          None \<Rightarrow> Goto ListLoop s4
                        | Some None \<Rightarrow> Raise TypeError
                        | Some (Some v) \<Rightarrow>
                            (case entry_title v of
                               None \<Rightarrow> Raise KeyError
                             | Some t \<Rightarrow>
                                 Goto MenuLoop
                                   (s4\<lparr>video := Some v,
                                       clean_title := Some (strip_ordinal t)\<rparr>)))))"

text \<open>
  Lines 495-531 and 614-629: one iteration of the action menu. A download hands the url to
  a detached process; a missing url makes \<^verbatim>\<open>subprocess.Popen\<close> raise.
\<close>

definition menu_iter :: "world \<Rightarrow> explorer \<Rightarrow> control" where
  "menu_iter W s =
     (let action_sel = launcher W (clock s);
          s1 = s\<lparr>clock := clock s + 1\<rparr>
      in if action_sel = ''Exit'' then Exit
         else if action_sel \<in> {''Back'', []} then Goto ListLoop s1
         else if contains ''Toggle Audio Only'' action_sel then
           Goto MenuLoop (toggle_audio_only s1)
         else if contains ''Toggle Autoplay'' action_sel then
           (case toggle_autoplay s1 of Inl e \<Rightarrow> Raise e | Inr s2 \<Rightarrow> Goto MenuLoop s2)
         else
           (case video s1 of
              None \<Rightarrow> Raise UnboundLocalError
            | Some v \<Rightarrow>
                let s2 = s1\<lparr>vid_url := entry_url v\<rparr>
                in if action_sel = ''Watch'' then Goto AutoplayLoop s2
                   else if action_sel = ''Download'' then
                     (case entry_url v of
                        None \<Rightarrow> Raise TypeError
                      | Some u \<Rightarrow> Goto MenuLoop (s2\<lparr>downloads := downloads s2 @ [u]\<rparr>))
                   else Goto MenuLoop s2))"

text \<open>Lines 578-582: the entry at \<open>current_index\<close> becomes the current one.\<close>

definition playlist_advance :: "explorer \<Rightarrow> control" where
  "playlist_advance s =
     (if current_index s < int (length (entries s)) then
        (case py_index (entries s) (current_index s) of
           None \<Rightarrow> Raise IndexError
         | Some None \<Rightarrow> Raise AttributeError
         | Some (Some v) \<Rightarrow>
             Goto AutoplayLoop
               (s\<lparr>video := Some v, vid_url := entry_url v,
                  clean_title :=
                    Some (strip_ordinal
                            (case entry_title v of None \<Rightarrow> ''Unknown'' | Some t \<Rightarrow> t))\<rparr>))
      else Goto ListLoop s)"

text \<open>Lines 566-582: playlist autoplay, after a playback that ended with code 0.\<close>

definition autoplay_playlist :: "world \<Rightarrow> explorer \<Rightarrow> control" where
  "autoplay_playlist W s =
     (let P = NO_OF_SEARCH_RESULTS (CONFIG s);
          s1 = s\<lparr>current_index := current_index s + 1\<rparr>
      in if current_index s1 \<ge> int (length (entries s1)) then
           (let g = next_window P (globals s1);
                s2 = s1\<lparr>globals := g, search_results := run_yt_dlp W (clock s1) g,
                        clock := clock s1 + 1\<rparr>
            in case search_results s2 of
                 None \<Rightarrow> Goto ListLoop s2
               | Some page \<Rightarrow>
                   playlist_advance
                     (s2\<lparr>entries := page, current_index := 0, download_images := False\<rparr>))
         else playlist_advance s1)"

text \<open>Lines 584-609: related autoplay, after a playback that ended with code 0.\<close>

definition autoplay_related :: "world \<Rightarrow> explorer \<Rightarrow> control" where
  "autoplay_related W s =
     (case video s of
        None \<Rightarrow> Raise UnboundLocalError
      | Some v \<Rightarrow>
          let vid_id = entry_id v;
              s1 = s\<lparr>clock := clock s + 1\<rparr>
          in (case related_next vid_id (mix W (clock s)) of
                Selected e \<Rightarrow>
                  Goto AutoplayLoop
                    (s1\<lparr>video := Some e, vid_url := entry_url e, clean_title := entry_title e\<rparr>)
              | NoRelated \<Rightarrow> Goto ListLoop s1
              | FetchFailed \<Rightarrow> Goto ListLoop s1))"

text \<open>
  Lines 534-563 and 612: one playback. A url (or, for vlc, a title) that is \<^verbatim>\<open>None\<close> makes
  \<^verbatim>\<open>subprocess.run\<close> raise before the player starts. Leaving the autoplay loop leads, by
  the \<^verbatim>\<open>break\<close> of line 612, back to the list.
\<close>

definition autoplay_iter :: "world \<Rightarrow> explorer \<Rightarrow> control" where
  "autoplay_iter W s =
     (case vid_url s of
        None \<Rightarrow> Raise TypeError
      | Some u \<Rightarrow>
          if PLAYER (CONFIG s) = ''vlc'' \<and> clean_title s = None then Raise TypeError
          else
            let s1 = s\<lparr>clock := clock s + 1, played := played s @ [u]\<rparr>
            in (case player W (clock s) of
                  NotStarted \<Rightarrow> Raise OSError
                | KeyboardInterrupt \<Rightarrow> Goto ListLoop s1
                | Returncode rc \<Rightarrow>
                    if rc \<noteq> 0 then Goto ListLoop s1
                    else if autoplay_mode s1 = ''off'' then Goto ListLoop s1
                    else if autoplay_mode s1 = ''playlist'' then autoplay_playlist W s1
                    else if autoplay_mode s1 = ''related'' then autoplay_related W s1
                    else Goto AutoplayLoop s1))"

fun iter :: "world \<Rightarrow> pc \<Rightarrow> explorer \<Rightarrow> control" where
  "iter W ListLoop s = list_iter W s"
| "iter W MenuLoop s = menu_iter W s"
| "iter W AutoplayLoop s = autoplay_iter W s"

text \<open>
  The loops may go on for ever, so they run on fuel: \<open>Running\<close> is where an execution stands
  when the fuel is used up. Leaving the outer loop reaches lines 631-632, which reset the
  globals, and the function returns.
\<close>

datatype result = Returned explorer | Exited | Raised py_error | Running pc explorer

fun run :: "nat \<Rightarrow> world \<Rightarrow> pc \<Rightarrow> explorer \<Rightarrow> result" where
  "run 0 W l s = Running l s"
| "run (Suc n) W l s =
     (case iter W l s of
        Goto l' s' \<Rightarrow> run n W l' s'
      | Break s' \<Rightarrow>
          Returned (s'\<lparr>globals := \<lparr>PLAYLIST_START = 1,
                                   PLAYLIST_END = NO_OF_SEARCH_RESULTS (CONFIG s')\<rparr>\<rparr>)
      | Exit \<Rightarrow> Exited
      | Raise e \<Rightarrow> Raised e)"

text \<open>Lines 428-434: the state in which \<^verbatim>\<open>playlist_explorer(search_results, url)\<close> starts.\<close>

definition enter :: "config \<Rightarrow> window \<Rightarrow> page option \<Rightarrow> explorer" where
  "enter cfg g results =
     \<lparr>globals = g, CONFIG = cfg,
      audio_only_mode = (lower (AUDIO_ONLY_MODE cfg) = ''true''),
      autoplay_mode = AUTOPLAY_MODE cfg,
      download_images = False, search_results = results, entries = [],
      current_index = 0, video = None, clean_title = None, vid_url = None,
      clock = 0, played = [], downloads = []\<rparr>"

definition playlist_explorer ::
  "nat \<Rightarrow> world \<Rightarrow> config \<Rightarrow> window \<Rightarrow> page option \<Rightarrow> result" where
  "playlist_explorer fuel W cfg g results = run fuel W ListLoop (enter cfg g results)"

text \<open>
  The state of a session whose page size is not negative and whose window is the inclusive
  range of a page.
\<close>

definition explorer_ok :: "explorer \<Rightarrow> bool" where
  "explorer_ok s \<longleftrightarrow>
     0 \<le> NO_OF_SEARCH_RESULTS (CONFIG s) \<and> window_ok (NO_OF_SEARCH_RESULTS (CONFIG s)) (globals s)"

section \<open>An example session\<close>

text \<open>
  A configuration with page size 30, a page of two entries around a hole, and a world whose
  selector gives the listed answers (the answer to call number \<open>n\<close> of the session is the
  \<open>n\<close>-th of the list; a fetch is a call too, and its place in the list is not read) and
  whose metadata source always returns the example page.
\<close>

definition example_config :: "string \<Rightarrow> config" where
  "example_config mode =
     \<lparr>NO_OF_SEARCH_RESULTS = 30, ENABLE_PREVIEW = ''true'', PREFERRED_SELECTOR = ''fzf'',
      PLAYER = ''mpv'', AUDIO_ONLY_MODE = ''false'', AUTOPLAY_MODE = mode\<rparr>"

definition example_page :: page where
  "example_page =
     [Some \<lparr>entry_id = Some ''idA'', entry_title = Some ''Song A'', entry_url = Some ''url/A''\<rparr>,
      None,
      Some \<lparr>entry_id = Some ''idB'', entry_title = Some ''Song B'', entry_url = Some ''url/B''\<rparr>]"

definition example_world :: "string list \<Rightarrow> player_exit \<Rightarrow> world" where
  "example_world answers p =
     \<lparr>launcher = (\<lambda>n. if n < length answers then answers ! n else []),
      run_yt_dlp = (\<lambda>n w. Some example_page),
      player = (\<lambda>n. p),
      mix = (\<lambda>n. MixUnparsable),
      py_int = map_of [(''01'', 1), (''02'', 2), (''03'', 3)]\<rparr>"

definition example_mix :: mix_fetch where
  "example_mix = MixPayload (Some
     [Some \<lparr>entry_id = Some ''idB'', entry_title = Some ''Song B'', entry_url = Some ''url/B''\<rparr>,
      Some \<lparr>entry_id = Some ''idC'', entry_title = Some ''Song C'', entry_url = Some ''url/C''\<rparr>,
      Some \<lparr>entry_id = Some ''idD'', entry_title = Some ''Song D'', entry_url = Some ''url/D''\<rparr>])"


section \<open>Properties of the pagination window\<close>

lemma window_ok_initial: "window_ok P (initial_window P)"
  by (simp add: window_ok_def initial_window_def)

lemma window_ok_next: "0 \<le> P \<Longrightarrow> window_ok P w \<Longrightarrow> window_ok P (next_window P w)"
  by (simp add: window_ok_def next_window_def)

lemma window_ok_previous: "window_ok P w \<Longrightarrow> window_ok P (previous_window P w)"
  by (auto simp add: window_ok_def previous_window_def Let_def)

lemma window_ok_step: "0 \<le> P \<Longrightarrow> window_ok P w \<Longrightarrow> window_ok P (nav_step P w n)"
  by (cases n) (simp_all add: window_ok_next window_ok_previous)

lemma window_ok_navigate:
  "0 \<le> P \<Longrightarrow> window_ok P w \<Longrightarrow> window_ok P (navigate P w ns)"
  by (induction ns arbitrary: w) (simp_all add: window_ok_step)

section \<open>Runs of the explorer\<close>

lemma toggle_audio_only_page_size:
  "NO_OF_SEARCH_RESULTS (CONFIG (toggle_audio_only s)) = NO_OF_SEARCH_RESULTS (CONFIG s)"
  by (simp add: toggle_audio_only_def Let_def)

lemma toggle_autoplay_page_size:
  "toggle_autoplay s = Inr s' \<Longrightarrow>
     NO_OF_SEARCH_RESULTS (CONFIG s') = NO_OF_SEARCH_RESULTS (CONFIG s)"
  by (auto simp add: toggle_autoplay_def split: sum.splits)

lemma playlist_advance_page_size:
  "playlist_advance s = Goto l s' \<or> playlist_advance s = Break s' \<Longrightarrow>
     NO_OF_SEARCH_RESULTS (CONFIG s') = NO_OF_SEARCH_RESULTS (CONFIG s)"
  by (auto simp add: playlist_advance_def split: if_splits option.splits)

lemma autoplay_playlist_page_size:
  "autoplay_playlist W s = Goto l s' \<or> autoplay_playlist W s = Break s' \<Longrightarrow>
     NO_OF_SEARCH_RESULTS (CONFIG s') = NO_OF_SEARCH_RESULTS (CONFIG s)"
  by (auto simp add: autoplay_playlist_def Let_def split: if_splits option.splits
       dest!: playlist_advance_page_size [OF disjI1] playlist_advance_page_size [OF disjI2])

lemma autoplay_related_page_size:
  "autoplay_related W s = Goto l s' \<or> autoplay_related W s = Break s' \<Longrightarrow>
     NO_OF_SEARCH_RESULTS (CONFIG s') = NO_OF_SEARCH_RESULTS (CONFIG s)"
  by (auto simp add: autoplay_related_def Let_def split: option.splits related.splits)

lemma autoplay_iter_page_size:
  "autoplay_iter W s = Goto l s' \<or> autoplay_iter W s = Break s' \<Longrightarrow>
     NO_OF_SEARCH_RESULTS (CONFIG s') = NO_OF_SEARCH_RESULTS (CONFIG s)"
  by (auto simp add: autoplay_iter_def Let_def split: if_splits option.splits player_exit.splits
       dest!: autoplay_playlist_page_size [OF disjI1] autoplay_playlist_page_size [OF disjI2]
              autoplay_related_page_size [OF disjI1] autoplay_related_page_size [OF disjI2])

lemma menu_iter_page_size:
  "menu_iter W s = Goto l s' \<or> menu_iter W s = Break s' \<Longrightarrow>
     NO_OF_SEARCH_RESULTS (CONFIG s') = NO_OF_SEARCH_RESULTS (CONFIG s)"
  by (auto simp add: menu_iter_def Let_def toggle_audio_only_page_size
       split: if_splits option.splits sum.splits dest!: toggle_autoplay_page_size)

lemma list_iter_page_size:
  "list_iter W s = Goto l s' \<or> list_iter W s = Break s' \<Longrightarrow>
     NO_OF_SEARCH_RESULTS (CONFIG s') = NO_OF_SEARCH_RESULTS (CONFIG s)"
  by (auto simp add: list_iter_def Let_def split: if_splits option.splits)

lemma iter_page_size:
  "iter W l s = Goto l' s' \<or> iter W l s = Break s' \<Longrightarrow>
     NO_OF_SEARCH_RESULTS (CONFIG s') = NO_OF_SEARCH_RESULTS (CONFIG s)"
  by (cases l) (simp_all add: list_iter_page_size menu_iter_page_size autoplay_iter_page_size)

lemma run_returned_window:
  "run fuel W l s = Returned s' \<Longrightarrow>
     globals s' = \<lparr>PLAYLIST_START = 1, PLAYLIST_END = NO_OF_SEARCH_RESULTS (CONFIG s)\<rparr>"
proof (induction fuel arbitrary: l s)
  case 0
  then show ?case by simp
next
  case (Suc n)
  show ?case
  proof (cases "iter W l s")
    case (Goto l1 s1)
    with Suc.prems have "run n W l1 s1 = Returned s'" by simp
    then have "globals s' = \<lparr>PLAYLIST_START = 1, PLAYLIST_END = NO_OF_SEARCH_RESULTS (CONFIG s1)\<rparr>"
      by (rule Suc.IH)
    moreover have "NO_OF_SEARCH_RESULTS (CONFIG s1) = NO_OF_SEARCH_RESULTS (CONFIG s)"
      using Goto iter_page_size by blast
    ultimately show ?thesis by simp
  next
    case (Break s1)
    then have "NO_OF_SEARCH_RESULTS (CONFIG s1) = NO_OF_SEARCH_RESULTS (CONFIG s)"
      using iter_page_size by blast
    with Break Suc.prems show ?thesis by auto
  next
    case Exit
    with Suc.prems show ?thesis by simp
  next
    case (Raise e)
    with Suc.prems show ?thesis by simp
  qed
qed

lemma run_page_size:
  "run fuel W l s = Running l' s' \<Longrightarrow>
     NO_OF_SEARCH_RESULTS (CONFIG s') = NO_OF_SEARCH_RESULTS (CONFIG s)"
proof (induction fuel arbitrary: l s)
  case 0
  then show ?case by simp
next
  case (Suc n)
  show ?case
  proof (cases "iter W l s")
    case (Goto l1 s1)
    with Suc.prems have "run n W l1 s1 = Running l' s'" by simp
    then have "NO_OF_SEARCH_RESULTS (CONFIG s') = NO_OF_SEARCH_RESULTS (CONFIG s1)"
      by (rule Suc.IH)
    moreover have "NO_OF_SEARCH_RESULTS (CONFIG s1) = NO_OF_SEARCH_RESULTS (CONFIG s)"
      using Goto iter_page_size by blast
    ultimately show ?thesis by simp
  next
    case (Break s1)
    with Suc.prems show ?thesis by simp
  next
    case Exit
    with Suc.prems show ?thesis by simp
  next
    case (Raise e)
    with Suc.prems show ?thesis by simp
  qed
qed

lemma run_one_Running:
  "run (Suc 0) W l s = Running l' s' \<Longrightarrow> iter W l s = Goto l' s'"
  by (simp split: control.splits)

lemma run_Suc_Goto: "iter W l s = Goto l' s' \<Longrightarrow> run (Suc n) W l s = run n W l' s'"
  by simp

lemma playlist_advance_ok:
  "explorer_ok s \<Longrightarrow> playlist_advance s = Goto l s' \<Longrightarrow> explorer_ok s'"
  by (auto simp add: playlist_advance_def explorer_ok_def split: if_splits option.splits)

lemma autoplay_playlist_ok:
  assumes "explorer_ok s" and "autoplay_playlist W s = Goto l s'"
  shows "explorer_ok s'"
proof -
  let ?P = "NO_OF_SEARCH_RESULTS (CONFIG s)"
  from assms(1) have w: "0 \<le> ?P" "window_ok ?P (next_window ?P (globals s))"
    by (simp_all add: explorer_ok_def window_ok_next)
  then show ?thesis
    using assms
    by (auto simp add: autoplay_playlist_def Let_def explorer_ok_def
          split: if_splits option.splits
          dest!: playlist_advance_ok [unfolded explorer_ok_def, rotated])
qed

lemma autoplay_related_ok:
  "explorer_ok s \<Longrightarrow> autoplay_related W s = Goto l s' \<Longrightarrow> explorer_ok s'"
  by (auto simp add: autoplay_related_def Let_def explorer_ok_def
        split: option.splits related.splits)

lemma autoplay_iter_ok:
  assumes "explorer_ok s" and "autoplay_iter W s = Goto l s'"
  shows "explorer_ok s'"
proof -
  have "explorer_ok (s\<lparr>clock := c, played := p\<rparr>)" for c p
    using assms(1) by (simp add: explorer_ok_def)
  then show ?thesis
    using assms
    by (auto simp add: autoplay_iter_def Let_def
          split: if_splits option.splits player_exit.splits
          intro: autoplay_playlist_ok autoplay_related_ok)
qed

lemma menu_iter_ok:
  "explorer_ok s \<Longrightarrow> menu_iter W s = Goto l s' \<Longrightarrow> explorer_ok s'"
  by (auto simp add: menu_iter_def Let_def explorer_ok_def toggle_audio_only_def
        toggle_autoplay_def
        split: if_splits option.splits sum.splits)

lemma list_iter_ok:
  "explorer_ok s \<Longrightarrow> list_iter W s = Goto l s' \<Longrightarrow> explorer_ok s'"
  by (auto simp add: list_iter_def Let_def explorer_ok_def window_ok_next window_ok_previous
        split: if_splits option.splits)

lemma iter_ok: "explorer_ok s \<Longrightarrow> iter W l s = Goto l' s' \<Longrightarrow> explorer_ok s'"
  by (cases l) (auto intro: list_iter_ok menu_iter_ok autoplay_iter_ok)

lemma run_ok: "explorer_ok s \<Longrightarrow> run fuel W l s = Running l' s' \<Longrightarrow> explorer_ok s'"
proof (induction fuel arbitrary: l s)
  case 0
  then show ?case by simp
next
  case (Suc n)
  show ?case
  proof (cases "iter W l s")
    case (Goto l1 s1)
    with Suc.prems(1) have "explorer_ok s1" by (auto intro: iter_ok)
    moreover from Goto Suc.prems(2) have "run n W l1 s1 = Running l' s'" by simp
    ultimately show ?thesis by (rule Suc.IH)
  next
    case (Break s1)
    with Suc.prems show ?thesis by simp
  next
    case Exit
    with Suc.prems show ?thesis by simp
  next
    case (Raise e)
    with Suc.prems show ?thesis by simp
  qed
qed

section \<open>The window under navigation\<close>

text \<open>
  Claim C1, as the specification states it, fails already in the initial state: with the
  default page size 30 the window is \<open>(1, 30)\<close>, so \<open>end - start\<close> is 29 and not 30.
\<close>

theorem C1_end_minus_start_counterexample:
  "PLAYLIST_END (navigate 30 (initial_window 30) [])
     - PLAYLIST_START (navigate 30 (initial_window 30) []) \<noteq> 30"
  by (simp add: initial_window_def)

text \<open>
  Claim C1, amended: for a page size \<open>P \<ge> 0\<close> and every sequence of Next and Previous
  steps from the initial window, after every step (every prefix of the sequence, the empty
  one included) \<open>start \<ge> 1\<close> and \<open>end - start = P - 1\<close>: the window is the inclusive
  range of \<open>P\<close> results. The same holds in every state that \<^verbatim>\<open>playlist_explorer\<close>
  reaches from the initial window, where playlist autoplay moves the window as well.
\<close>

theorem C1_window_invariant:
  assumes "0 \<le> P"
  shows "1 \<le> PLAYLIST_START (navigate P (initial_window P) (take k ns))
       \<and> PLAYLIST_END (navigate P (initial_window P) (take k ns))
           - PLAYLIST_START (navigate P (initial_window P) (take k ns)) = P - 1
       \<and> (NO_OF_SEARCH_RESULTS cfg = P
            \<and> playlist_explorer fuel W cfg (initial_window P) results = Running l s \<longrightarrow>
              1 \<le> PLAYLIST_START (globals s)
              \<and> PLAYLIST_END (globals s) - PLAYLIST_START (globals s) = P - 1)"
proof -
  have "window_ok P (navigate P (initial_window P) (take k ns))"
    using assms by (simp add: window_ok_navigate window_ok_initial)
  then have a: "1 \<le> PLAYLIST_START (navigate P (initial_window P) (take k ns))
       \<and> PLAYLIST_END (navigate P (initial_window P) (take k ns))
           - PLAYLIST_START (navigate P (initial_window P) (take k ns)) = P - 1"
    by (simp add: window_ok_def)
  have b: "1 \<le> PLAYLIST_START (globals s)
              \<and> PLAYLIST_END (globals s) - PLAYLIST_START (globals s) = P - 1"
    if h: "NO_OF_SEARCH_RESULTS cfg = P
            \<and> playlist_explorer fuel W cfg (initial_window P) results = Running l s"
  proof -
    have "explorer_ok (enter cfg (initial_window P) results)"
      using assms h by (simp add: explorer_ok_def enter_def window_ok_initial)
    moreover from h have "run fuel W ListLoop (enter cfg (initial_window P) results) = Running l s"
      by (simp add: playlist_explorer_def)
    ultimately have ok: "explorer_ok s" by (rule run_ok)
    have "NO_OF_SEARCH_RESULTS (CONFIG s) = P"
      using run_page_size [of fuel W ListLoop "enter cfg (initial_window P) results" l s] h
      by (simp add: playlist_explorer_def enter_def)
    with ok show ?thesis by (simp add: explorer_ok_def window_ok_def)
  qed
  from a b show ?thesis by blast
qed

theorem C1_window_invariant_witness:
  "(0::int) \<le> 30
   \<and> navigate 30 (initial_window 30) (take 3 [Next, Next, Previous, Previous])
       = \<lparr>PLAYLIST_START = 31, PLAYLIST_END = 60\<rparr>
   \<and> 1 \<le> PLAYLIST_START (navigate 30 (initial_window 30) (take 3 [Next, Next, Previous, Previous]))
   \<and> PLAYLIST_END (navigate 30 (initial_window 30) (take 3 [Next, Next, Previous, Previous]))
       - PLAYLIST_START (navigate 30 (initial_window 30) (take 3 [Next, Next, Previous, Previous]))
       = 30 - 1
   \<and> NO_OF_SEARCH_RESULTS (example_config ''off'') = 30
   \<and> (\<exists>s. playlist_explorer 2 (example_world [''Next'', [], ''Next''] (Returncode 0))
              (example_config ''off'') (initial_window 30) (Some example_page)
            = Running ListLoop s
          \<and> globals s = \<lparr>PLAYLIST_START = 61, PLAYLIST_END = 90\<rparr>
          \<and> 1 \<le> PLAYLIST_START (globals s)
          \<and> PLAYLIST_END (globals s) - PLAYLIST_START (globals s) = 30 - 1)"
proof -
  let ?W = "example_world [''Next'', [], ''Next''] (Returncode 0)"
  let ?r = "playlist_explorer 2 ?W (example_config ''off'') (initial_window 30) (Some example_page)"
  have c: "NO_OF_SEARCH_RESULTS (example_config ''off'') = 30" by (simp add: example_config_def)
  have "\<exists>s. ?r = Running ListLoop s \<and> globals s = \<lparr>PLAYLIST_START = 61, PLAYLIST_END = 90\<rparr>"
    by (simp add: playlist_explorer_def numeral_2_eq_2 enter_def example_config_def
        example_world_def example_page_def list_iter_def annotate_def Let_def strip_icon_def
        is_digit_def initial_window_def next_window_def)
  then obtain s where s: "?r = Running ListLoop s"
    "globals s = \<lparr>PLAYLIST_START = 61, PLAYLIST_END = 90\<rparr>"
    by blast
  from C1_window_invariant [of 30 3 "[Next, Next, Previous, Previous]" "example_config ''off''"
      2 ?W "Some example_page" ListLoop s] c s
  have "navigate 30 (initial_window 30) (take 3 [Next, Next, Previous, Previous])
       = \<lparr>PLAYLIST_START = 31, PLAYLIST_END = 60\<rparr>
   \<and> 1 \<le> PLAYLIST_START (navigate 30 (initial_window 30) (take 3 [Next, Next, Previous, Previous]))
   \<and> PLAYLIST_END (navigate 30 (initial_window 30) (take 3 [Next, Next, Previous, Previous]))
       - PLAYLIST_START (navigate 30 (initial_window 30) (take 3 [Next, Next, Previous, Previous]))
       = 30 - 1
   \<and> 1 \<le> PLAYLIST_START (globals s)
   \<and> PLAYLIST_END (globals s) - PLAYLIST_START (globals s) = 30 - 1"
    by (simp add: initial_window_def next_window_def previous_window_def)
  with c s show ?thesis by auto
qed

text \<open>
  Claim C3: for a page size \<open>P \<ge> 0\<close>, Previous applied to a window with \<open>start = 1\<close>
  leaves \<open>start = 1\<close> (and from the first window \<open>(1, P)\<close> leaves the whole window
  unchanged); in general Previous subtracts \<open>P\<close> from both bounds, except that a start
  that would drop to 0 or below becomes 1 and an end that would drop below \<open>P\<close> becomes
  \<open>P\<close>, so the new start is at least 1 and the new end at least \<open>P\<close>.
\<close>

theorem C3_previous_floor:
  assumes "0 \<le> P"
  shows "(PLAYLIST_START w = 1 \<longrightarrow> PLAYLIST_START (previous_window P w) = 1)
       \<and> previous_window P (initial_window P) = initial_window P
       \<and> PLAYLIST_START (previous_window P w)
           = (if PLAYLIST_START w - P \<le> 0 then 1 else PLAYLIST_START w - P)
       \<and> PLAYLIST_END (previous_window P w) = max (PLAYLIST_END w - P) P
       \<and> 1 \<le> PLAYLIST_START (previous_window P w)
       \<and> P \<le> PLAYLIST_END (previous_window P w)"
  using assms by (auto simp add: previous_window_def initial_window_def Let_def)

theorem C3_previous_floor_witness:
  "(0::int) \<le> 30
   \<and> previous_window 30 \<lparr>PLAYLIST_START = 1, PLAYLIST_END = 30\<rparr>
       = \<lparr>PLAYLIST_START = 1, PLAYLIST_END = 30\<rparr>
   \<and> previous_window 30 \<lparr>PLAYLIST_START = 61, PLAYLIST_END = 90\<rparr>
       = \<lparr>PLAYLIST_START = 31, PLAYLIST_END = 60\<rparr>
   \<and> PLAYLIST_START (previous_window 30 \<lparr>PLAYLIST_START = 1, PLAYLIST_END = 30\<rparr>) = 1"
  using C3_previous_floor [of 30 "\<lparr>PLAYLIST_START = 1, PLAYLIST_END = 30\<rparr>"]
  by (simp add: previous_window_def)

section \<open>Preference toggles\<close>

lemma next_mode_cases:
  "next_mode m = (if m = ''off'' then Inr ''playlist'' else if m = ''playlist'' then Inr ''related''
                  else if m = ''related'' then Inr ''off'' else Inl ValueError)"
  by (simp add: next_mode_def modes_def)

text \<open>
  Claim C5: for every state, toggling audio-only twice gives back the audio-only flag; the
  autoplay toggle cycles off, playlist, related, off; and from a state whose autoplay mode
  is one of the three, three toggles succeed and give back the mode, in the local variable
  and in \<^verbatim>\<open>CONFIG\<close>.
\<close>

theorem C5_toggle_cycles:
  "audio_only_mode (toggle_audio_only (toggle_audio_only s)) = audio_only_mode s
   \<and> next_mode ''off'' = Inr ''playlist''
   \<and> next_mode ''playlist'' = Inr ''related''
   \<and> next_mode ''related'' = Inr ''off''
   \<and> (autoplay_mode s \<in> {''off'', ''playlist'', ''related''} \<longrightarrow>
        (\<exists>s1 s2 s3. toggle_autoplay s = Inr s1 \<and> toggle_autoplay s1 = Inr s2
            \<and> toggle_autoplay s2 = Inr s3
            \<and> autoplay_mode s3 = autoplay_mode s
            \<and> AUTOPLAY_MODE (CONFIG s3) = autoplay_mode s
            \<and> audio_only_mode s3 = audio_only_mode s))"
  by (auto simp add: toggle_audio_only_def toggle_autoplay_def next_mode_cases Let_def)

theorem C5_toggle_cycles_witness:
  "autoplay_mode (enter \<lparr>NO_OF_SEARCH_RESULTS = 30, ENABLE_PREVIEW = ''false'',
        PREFERRED_SELECTOR = ''fzf'', PLAYER = ''mpv'', AUDIO_ONLY_MODE = ''false'',
        AUTOPLAY_MODE = ''playlist''\<rparr> (initial_window 30) None) \<in> {''off'', ''playlist'', ''related''}
   \<and> (\<exists>s1 s2 s3.
         toggle_autoplay (enter \<lparr>NO_OF_SEARCH_RESULTS = 30, ENABLE_PREVIEW = ''false'',
            PREFERRED_SELECTOR = ''fzf'', PLAYER = ''mpv'', AUDIO_ONLY_MODE = ''false'',
            AUTOPLAY_MODE = ''playlist''\<rparr> (initial_window 30) None) = Inr s1
         \<and> autoplay_mode s1 = ''related''
         \<and> toggle_autoplay s1 = Inr s2 \<and> autoplay_mode s2 = ''off''
         \<and> toggle_autoplay s2 = Inr s3 \<and> autoplay_mode s3 = ''playlist'')"
  using C5_toggle_cycles [of "enter \<lparr>NO_OF_SEARCH_RESULTS = 30, ENABLE_PREVIEW = ''false'',
        PREFERRED_SELECTOR = ''fzf'', PLAYER = ''mpv'', AUDIO_ONLY_MODE = ''false'',
        AUTOPLAY_MODE = ''playlist''\<rparr> (initial_window 30) None"]
  by (auto simp add: enter_def toggle_autoplay_def next_mode_cases)

text \<open>
  Claim C10: the autoplay toggle raises \<^verbatim>\<open>ValueError\<close> exactly when the mode is none of
  off, playlist and related, and succeeds exactly when it is one of them. The mode is the
  string of the preference store as loaded, so for any other stored string the menu action
  Toggle Autoplay (shown with the label \<^verbatim>\<open>[Off]\<close>) ends \<^verbatim>\<open>playlist_explorer\<close> with the
  exception: nothing catches it, and the mode is neither cycled nor defaulted.
\<close>

theorem C10_toggle_autoplay_partial:
  "(toggle_autoplay s = Inl ValueError \<longleftrightarrow> autoplay_mode s \<notin> {''off'', ''playlist'', ''related''})
   \<and> ((\<exists>s'. toggle_autoplay s = Inr s') \<longleftrightarrow> autoplay_mode s \<in> {''off'', ''playlist'', ''related''})
   \<and> autoplay_mode (enter cfg g results) = AUTOPLAY_MODE cfg
   \<and> (autoplay_mode s \<notin> {''off'', ''playlist'', ''related''}
        \<and> launcher W (clock s) = ''Toggle Autoplay [Off]''
      \<longrightarrow> menu_iter W s = Raise ValueError
          \<and> run (Suc n) W MenuLoop s = Raised ValueError)"
  by (auto simp add: toggle_autoplay_def next_mode_cases enter_def menu_iter_def Let_def)

theorem C10_toggle_autoplay_partial_witness:
  "\<exists>s. run 1 (example_world [''03 Song B'', ''Toggle Autoplay [Off]''] (Returncode 0)) ListLoop
            (enter (example_config ''shuffle'') (initial_window 30) (Some example_page))
          = Running MenuLoop s
       \<and> autoplay_mode s = ''shuffle''
       \<and> autoplay_mode s \<notin> {''off'', ''playlist'', ''related''}
       \<and> launcher (example_world [''03 Song B'', ''Toggle Autoplay [Off]''] (Returncode 0)) (clock s)
           = ''Toggle Autoplay [Off]''
       \<and> toggle_autoplay s = Inl ValueError
       \<and> menu_iter (example_world [''03 Song B'', ''Toggle Autoplay [Off]''] (Returncode 0)) s
           = Raise ValueError
       \<and> playlist_explorer 2 (example_world [''03 Song B'', ''Toggle Autoplay [Off]''] (Returncode 0))
            (example_config ''shuffle'') (initial_window 30) (Some example_page)
           = Raised ValueError"
proof -
  let ?W = "example_world [''03 Song B'', ''Toggle Autoplay [Off]''] (Returncode 0)"
  let ?e = "enter (example_config ''shuffle'') (initial_window 30) (Some example_page)"
  have "\<exists>s. run 1 ?W ListLoop ?e = Running MenuLoop s
            \<and> autoplay_mode s = ''shuffle'' \<and> clock s = 1"
    by (simp add: enter_def example_config_def example_world_def example_page_def
        list_iter_def annotate_def annotate_title_def ordinal_def str_nat.simps
        Let_def strip_icon_def is_digit_def initial_window_def first_token_def py_index_def
        strip_ordinal_def has_ordinal_def replace_newlines_def)
  then obtain s where s: "run 1 ?W ListLoop ?e = Running MenuLoop s"
    "autoplay_mode s = ''shuffle''" "clock s = 1"
    by blast
  have l: "launcher ?W (clock s) = ''Toggle Autoplay [Off]''"
    using s(3) by (simp add: example_world_def)
  from C10_toggle_autoplay_partial [of s "example_config ''shuffle''" "initial_window 30"
      "Some example_page" ?W 0] s l
  have t: "toggle_autoplay s = Inl ValueError" "menu_iter ?W s = Raise ValueError"
    by simp_all
  have "iter ?W ListLoop ?e = Goto MenuLoop s"
    using s(1) by (simp only: One_nat_def run_one_Running)
  then have "run (Suc (Suc 0)) ?W ListLoop ?e = run (Suc 0) ?W MenuLoop s"
    by (rule run_Suc_Goto)
  with t have "playlist_explorer 2 ?W (example_config ''shuffle'') (initial_window 30)
      (Some example_page) = Raised ValueError"
    by (simp add: playlist_explorer_def numeral_2_eq_2)
  with s l t show ?thesis by auto
qed

section \<open>Returning from the explorer\<close>

text \<open>
  Claim C9: whenever \<^verbatim>\<open>playlist_explorer\<close> returns, the globals are \<open>start = 1\<close> and
  \<open>end = \<close> the page size, whatever the window was before. It returns from the list loop
  when there is no page (the fetch failed, or the payload is empty or has no entries) and
  when the selection is Back or empty.
\<close>

theorem C9_return_resets_window:
  "(playlist_explorer fuel W cfg g results = Returned s' \<longrightarrow>
      PLAYLIST_START (globals s') = 1 \<and> PLAYLIST_END (globals s') = NO_OF_SEARCH_RESULTS cfg)
   \<and> (search_results s0 = None \<longrightarrow>
        run (Suc n) W0 ListLoop s0
          = Returned (s0\<lparr>globals := initial_window (NO_OF_SEARCH_RESULTS (CONFIG s0))\<rparr>))
   \<and> (search_results s1 \<noteq> None \<and> strip_icon (launcher W1 (clock s1)) \<in> {''Back'', []} \<longrightarrow>
        (\<exists>s''. run (Suc n) W1 ListLoop s1 = Returned s''
            \<and> globals s'' = initial_window (NO_OF_SEARCH_RESULTS (CONFIG s1))))"
proof (intro conjI impI)
  assume "playlist_explorer fuel W cfg g results = Returned s'"
  then have "globals s' = \<lparr>PLAYLIST_START = 1,
      PLAYLIST_END = NO_OF_SEARCH_RESULTS (CONFIG (enter cfg g results))\<rparr>"
    unfolding playlist_explorer_def by (rule run_returned_window)
  then show "PLAYLIST_START (globals s') = 1"
    and "PLAYLIST_END (globals s') = NO_OF_SEARCH_RESULTS cfg"
    by (simp_all add: enter_def)
next
  assume "search_results s0 = None"
  then show "run (Suc n) W0 ListLoop s0
          = Returned (s0\<lparr>globals := initial_window (NO_OF_SEARCH_RESULTS (CONFIG s0))\<rparr>)"
    by (simp add: list_iter_def initial_window_def)
next
  assume "search_results s1 \<noteq> None \<and> strip_icon (launcher W1 (clock s1)) \<in> {''Back'', []}"
  then show "\<exists>s''. run (Suc n) W1 ListLoop s1 = Returned s''
            \<and> globals s'' = initial_window (NO_OF_SEARCH_RESULTS (CONFIG s1))"
    by (auto simp add: list_iter_def Let_def initial_window_def)
qed

theorem C9_return_resets_window_witness:
  "(\<exists>s. run 2 (example_world [''Next'', [], ''Next'', [], ''Back''] (Returncode 0)) ListLoop
            (enter (example_config ''off'') (initial_window 30) (Some example_page))
          = Running ListLoop s
        \<and> globals s = \<lparr>PLAYLIST_START = 61, PLAYLIST_END = 90\<rparr>
        \<and> search_results s \<noteq> None
        \<and> strip_icon (launcher (example_world [''Next'', [], ''Next'', [], ''Back''] (Returncode 0))
             (clock s)) = ''Back''
        \<and> (\<exists>s''. run (Suc 0) (example_world [''Next'', [], ''Next'', [], ''Back''] (Returncode 0))
                    ListLoop s = Returned s''
               \<and> globals s'' = \<lparr>PLAYLIST_START = 1, PLAYLIST_END = 30\<rparr>))
   \<and> (\<exists>s'. playlist_explorer 3 (example_world [''Next'', [], ''Next'', [], ''Back''] (Returncode 0))
              (example_config ''off'') (initial_window 30) (Some example_page) = Returned s'
          \<and> PLAYLIST_START (globals s') = 1 \<and> PLAYLIST_END (globals s') = 30)
   \<and> search_results (enter (example_config ''off'') \<lparr>PLAYLIST_START = 61, PLAYLIST_END = 90\<rparr> None)
       = None
   \<and> (\<exists>s'. run (Suc 0) (example_world [] (Returncode 0)) ListLoop
              (enter (example_config ''off'') \<lparr>PLAYLIST_START = 61, PLAYLIST_END = 90\<rparr> None)
            = Returned s'
          \<and> globals s' = \<lparr>PLAYLIST_START = 1, PLAYLIST_END = 30\<rparr>)"
proof -
  let ?W = "example_world [''Next'', [], ''Next'', [], ''Back''] (Returncode 0)"
  let ?V = "example_world [] (Returncode 0)"
  let ?e = "enter (example_config ''off'') \<lparr>PLAYLIST_START = 61, PLAYLIST_END = 90\<rparr> None"
  let ?r = "playlist_explorer 3 ?W (example_config ''off'') (initial_window 30) (Some example_page)"
  have ev: "\<exists>s'. ?r = Returned s'"
    by (simp add: playlist_explorer_def numeral_3_eq_3 enter_def example_config_def
        example_world_def example_page_def list_iter_def annotate_def Let_def strip_icon_def
        is_digit_def initial_window_def next_window_def)
  then obtain s' where r: "?r = Returned s'" by blast
  have "\<exists>s. run 2 ?W ListLoop (enter (example_config ''off'') (initial_window 30) (Some example_page))
          = Running ListLoop s \<and> globals s = \<lparr>PLAYLIST_START = 61, PLAYLIST_END = 90\<rparr>
        \<and> search_results s \<noteq> None \<and> clock s = 4
        \<and> NO_OF_SEARCH_RESULTS (CONFIG s) = 30"
    by (simp add: numeral_2_eq_2 enter_def example_config_def
        example_world_def example_page_def list_iter_def annotate_def Let_def strip_icon_def
        is_digit_def initial_window_def next_window_def)
  then obtain s where s: "run 2 ?W ListLoop
        (enter (example_config ''off'') (initial_window 30) (Some example_page)) = Running ListLoop s"
    "globals s = \<lparr>PLAYLIST_START = 61, PLAYLIST_END = 90\<rparr>" "search_results s \<noteq> None"
    "clock s = 4" "NO_OF_SEARCH_RESULTS (CONFIG s) = 30"
    by blast
  have l: "strip_icon (launcher ?W (clock s)) = ''Back''"
    using s(4) by (simp add: example_world_def strip_icon_def is_digit_def)
  have n: "search_results ?e = None" by (simp add: enter_def)
  note inst = C9_return_resets_window [of 3 ?W "example_config ''off''" "initial_window 30"
      "Some example_page" s' ?e 0 ?V s ?W]
  from inst r have a: "PLAYLIST_START (globals s') = 1 \<and> PLAYLIST_END (globals s') = 30"
    by (simp add: example_config_def)
  from inst n have b: "\<exists>t. run (Suc 0) ?V ListLoop ?e = Returned t
      \<and> globals t = \<lparr>PLAYLIST_START = 1, PLAYLIST_END = 30\<rparr>"
    by (simp add: enter_def example_config_def initial_window_def)
  from inst s(3) l s(5) have c: "\<exists>s''. run (Suc 0) ?W ListLoop s = Returned s''
      \<and> globals s'' = \<lparr>PLAYLIST_START = 1, PLAYLIST_END = 30\<rparr>"
    by (simp add: initial_window_def)
  from r a b c s l n show ?thesis by blast
qed

section \<open>Player failure\<close>

text \<open>
  Claim C8: when the player has run and ended with a non-zero code, the autoplay loop is
  left at once and control is back at the list of results, whatever the autoplay mode is:
  nothing is fetched, and the window, the page, the current entry and its index are what
  they were. The session goes on from the list loop.
\<close>

theorem C8_player_failure_stops:
  assumes "player W (clock s) = Returncode rc" and "rc \<noteq> 0"
    and "vid_url s = Some u"
    and "\<not> (PLAYER (CONFIG s) = ''vlc'' \<and> clean_title s = None)"
  shows "autoplay_iter W s = Goto ListLoop (s\<lparr>clock := clock s + 1, played := played s @ [u]\<rparr>)
       \<and> run (Suc n) W AutoplayLoop s
           = run n W ListLoop (s\<lparr>clock := clock s + 1, played := played s @ [u]\<rparr>)"
  using assms by (simp add: autoplay_iter_def Let_def)

theorem C8_player_failure_stops_witness:
  "player (example_world [''03 Song B'', ''Watch'', ''Back''] (Returncode 1)) 2 = Returncode 1
   \<and> (1::int) \<noteq> 0
   \<and> (\<exists>s s'. run 2 (example_world [''03 Song B'', ''Watch'', ''Back''] (Returncode 1)) ListLoop
                  (enter (example_config ''playlist'') (initial_window 30) (Some example_page))
                = Running AutoplayLoop s
            \<and> autoplay_mode s = ''playlist'' \<and> vid_url s = Some ''url/B'' \<and> clock s = 2
            \<and> autoplay_iter (example_world [''03 Song B'', ''Watch'', ''Back''] (Returncode 1)) s
                = Goto ListLoop s'
            \<and> played s' = [''url/B''] \<and> globals s' = globals s \<and> video s' = video s
            \<and> current_index s' = current_index s)"
proof -
  let ?W = "example_world [''03 Song B'', ''Watch'', ''Back''] (Returncode 1)"
  have p: "player ?W 2 = Returncode 1" by (simp add: example_world_def)
  have "\<exists>s. run 2 ?W ListLoop
                  (enter (example_config ''playlist'') (initial_window 30) (Some example_page))
                = Running AutoplayLoop s
            \<and> autoplay_mode s = ''playlist'' \<and> vid_url s = Some ''url/B'' \<and> clock s = 2
            \<and> clean_title s \<noteq> None \<and> played s = []"
    by (simp add: numeral_2_eq_2 enter_def example_config_def example_world_def example_page_def
        list_iter_def menu_iter_def annotate_def annotate_title_def ordinal_def str_nat.simps
        Let_def strip_icon_def is_digit_def initial_window_def first_token_def py_index_def
        strip_ordinal_def has_ordinal_def replace_newlines_def)
  then obtain s where s: "run 2 ?W ListLoop
                  (enter (example_config ''playlist'') (initial_window 30) (Some example_page))
                = Running AutoplayLoop s"
    "autoplay_mode s = ''playlist''" "vid_url s = Some ''url/B''" "clock s = 2"
    "clean_title s \<noteq> None" "played s = []"
    by blast
  from C8_player_failure_stops [of ?W s 1 "''url/B''" 0] p s
  have "autoplay_iter ?W s = Goto ListLoop (s\<lparr>clock := clock s + 1, played := played s @ [''url/B'']\<rparr>)"
    by simp
  with s p show ?thesis by auto
qed

section \<open>Related autoplay selection\<close>

lemma first_other_Selected:
  "first_other vid_id es = Selected e \<Longrightarrow>
     entry_id e \<noteq> vid_id
     \<and> (\<exists>pre post. es = map Some pre @ Some e # post \<and> (\<forall>x\<in>set pre. entry_id x = vid_id))"
proof (induction vid_id es rule: first_other.induct)
  case (1 vid_id)
  then show ?case by simp
next
  case (2 vid_id es)
  then show ?case by simp
next
  case (3 vid_id x es)
  show ?case
  proof (cases "entry_id x \<noteq> vid_id")
    case True
    with 3 have "e = x" by simp
    with True have "Some x # es = map Some [] @ Some e # es \<and> (\<forall>y\<in>set []. entry_id y = vid_id)"
      by simp
    with True \<open>e = x\<close> show ?thesis by blast
  next
    case False
    with 3 obtain pre post where
      "entry_id e \<noteq> vid_id" "es = map Some pre @ Some e # post" "\<forall>y\<in>set pre. entry_id y = vid_id"
      by auto
    with False have "Some x # es = map Some (x # pre) @ Some e # post
        \<and> (\<forall>y\<in>set (x # pre). entry_id y = vid_id)"
      by simp
    with \<open>entry_id e \<noteq> vid_id\<close> show ?thesis by blast
  qed
qed

lemma first_other_find:
  "first_other vid_id (map Some es)
     = (case find (\<lambda>e. entry_id e \<noteq> vid_id) es of Some e \<Rightarrow> Selected e | None \<Rightarrow> NoRelated)"
  by (induction es) simp_all

text \<open>
  Claim C6: in related autoplay the entry selected has an id different from the current
  one and is the first such entry of the mix: every entry before it is well formed and has
  the current id. When all entries are well formed, the selection is the first entry with
  another id, and there is none exactly when no entry qualifies. When none qualifies or the
  fetch fails, the autoplay loop is left for the list; otherwise it goes on with the selected
  entry as the current one.
\<close>

theorem C6_related_selection:
  "(related_next vid_id mix_data = Selected e \<longrightarrow>
      entry_id e \<noteq> vid_id
      \<and> (\<exists>pre post. mix_data = MixPayload (Some (map Some pre @ Some e # post))
            \<and> (\<forall>x\<in>set pre. entry_id x = vid_id)))
   \<and> related_next vid_id (MixPayload (Some (map Some es)))
       = (case find (\<lambda>e. entry_id e \<noteq> vid_id) es of Some e \<Rightarrow> Selected e | None \<Rightarrow> NoRelated)
   \<and> related_next vid_id MixUnparsable = FetchFailed
   \<and> related_next vid_id (MixPayload None) = NoRelated
   \<and> (video s = Some v \<longrightarrow>
        autoplay_related W s
          = (case related_next (entry_id v) (mix W (clock s)) of
               Selected e \<Rightarrow>
                 Goto AutoplayLoop (s\<lparr>clock := clock s + 1, video := Some e,
                                      vid_url := entry_url e, clean_title := entry_title e\<rparr>)
             | NoRelated \<Rightarrow> Goto ListLoop (s\<lparr>clock := clock s + 1\<rparr>)
             | FetchFailed \<Rightarrow> Goto ListLoop (s\<lparr>clock := clock s + 1\<rparr>)))"
proof (intro conjI impI)
  assume a: "related_next vid_id mix_data = Selected e"
  then obtain es where m: "mix_data = MixPayload (Some es)" and f: "first_other vid_id es = Selected e"
    by (auto simp add: related_next_def split: mix_fetch.splits option.splits)
  from first_other_Selected [OF f] show "entry_id e \<noteq> vid_id" by simp
  from first_other_Selected [OF f] m
  show "\<exists>pre post. mix_data = MixPayload (Some (map Some pre @ Some e # post))
            \<and> (\<forall>x\<in>set pre. entry_id x = vid_id)"
    by auto
next
  show "related_next vid_id (MixPayload (Some (map Some es)))
       = (case find (\<lambda>e. entry_id e \<noteq> vid_id) es of Some e \<Rightarrow> Selected e | None \<Rightarrow> NoRelated)"
    by (simp add: related_next_def first_other_find)
next
  show "related_next vid_id MixUnparsable = FetchFailed" by (simp add: related_next_def)
next
  show "related_next vid_id (MixPayload None) = NoRelated" by (simp add: related_next_def)
next
  assume "video s = Some v"
  then show "autoplay_related W s
          = (case related_next (entry_id v) (mix W (clock s)) of
               Selected e \<Rightarrow>
                 Goto AutoplayLoop (s\<lparr>clock := clock s + 1, video := Some e,
                                      vid_url := entry_url e, clean_title := entry_title e\<rparr>)
             | NoRelated \<Rightarrow> Goto ListLoop (s\<lparr>clock := clock s + 1\<rparr>)
             | FetchFailed \<Rightarrow> Goto ListLoop (s\<lparr>clock := clock s + 1\<rparr>))"
    by (simp add: autoplay_related_def Let_def split: related.splits)
qed

theorem C6_related_selection_witness:
  "related_next (Some ''idB'') example_mix
     = Selected \<lparr>entry_id = Some ''idC'', entry_title = Some ''Song C'', entry_url = Some ''url/C''\<rparr>
   \<and> Some ''idC'' \<noteq> Some ''idB''
   \<and> related_next (Some ''idB'')
        (MixPayload (Some [Some \<lparr>entry_id = Some ''idB'', entry_title = Some ''Song B'',
                                   entry_url = Some ''url/B''\<rparr>])) = NoRelated
   \<and> (\<exists>s s'. run 2 ((example_world [''03 Song B'', ''Watch''] (Returncode 0))
                       \<lparr>mix := \<lambda>n. example_mix\<rparr>) ListLoop
                 (enter (example_config ''related'') (initial_window 30) (Some example_page))
               = Running AutoplayLoop s
           \<and> video s = Some \<lparr>entry_id = Some ''idB'', entry_title = Some ''03 Song B'',
                                entry_url = Some ''url/B''\<rparr>
           \<and> autoplay_iter ((example_world [''03 Song B'', ''Watch''] (Returncode 0))
                  \<lparr>mix := \<lambda>n. example_mix\<rparr>) s = Goto AutoplayLoop s'
           \<and> video s' = Some \<lparr>entry_id = Some ''idC'', entry_title = Some ''Song C'',
                                 entry_url = Some ''url/C''\<rparr>
           \<and> vid_url s' = Some ''url/C'' \<and> played s' = [''url/B''])"
proof -
  let ?W = "(example_world [''03 Song B'', ''Watch''] (Returncode 0))\<lparr>mix := \<lambda>n. example_mix\<rparr>"
  let ?B = "\<lparr>entry_id = Some ''idB'', entry_title = Some ''03 Song B'', entry_url = Some ''url/B''\<rparr>"
  let ?C = "\<lparr>entry_id = Some ''idC'', entry_title = Some ''Song C'', entry_url = Some ''url/C''\<rparr>"
  have sel: "related_next (Some ''idB'') example_mix = Selected ?C"
    by (simp add: example_mix_def related_next_def)
  have "\<exists>s. run 2 ?W ListLoop
                 (enter (example_config ''related'') (initial_window 30) (Some example_page))
               = Running AutoplayLoop s
           \<and> video s = Some ?B \<and> vid_url s = Some ''url/B'' \<and> autoplay_mode s = ''related''
           \<and> PLAYER (CONFIG s) = ''mpv'' \<and> played s = []"
    by (simp add: numeral_2_eq_2 enter_def example_config_def example_world_def example_page_def
        list_iter_def menu_iter_def annotate_def annotate_title_def ordinal_def str_nat.simps
        Let_def strip_icon_def is_digit_def initial_window_def first_token_def py_index_def
        strip_ordinal_def has_ordinal_def replace_newlines_def)
  then obtain s where s: "run 2 ?W ListLoop
        (enter (example_config ''related'') (initial_window 30) (Some example_page))
          = Running AutoplayLoop s"
    "video s = Some ?B" "vid_url s = Some ''url/B''" "autoplay_mode s = ''related''"
    "PLAYER (CONFIG s) = ''mpv''" "played s = []"
    by blast
  let ?t = "s\<lparr>clock := clock s + 1, played := played s @ [''url/B'']\<rparr>"
  have m: "mix ?W (clock ?t) = example_mix" by (simp add: example_world_def)
  have p: "player ?W (clock s) = Returncode 0" by (simp add: example_world_def)
  from C6_related_selection [of "Some ''idB''" example_mix ?C "[]" ?t ?B ?W] sel s m
  have r: "autoplay_related ?W ?t
      = Goto AutoplayLoop (?t\<lparr>clock := clock ?t + 1, video := Some ?C,
                             vid_url := entry_url ?C, clean_title := entry_title ?C\<rparr>)"
    by simp
  have "autoplay_iter ?W s = autoplay_related ?W ?t"
    using s p by (simp add: autoplay_iter_def Let_def)
  with r s have "\<exists>s'. autoplay_iter ?W s = Goto AutoplayLoop s' \<and> video s' = Some ?C
      \<and> vid_url s' = Some ''url/C'' \<and> played s' = [''url/B'']"
    by simp
  moreover have "related_next (Some ''idB'')
        (MixPayload (Some [Some \<lparr>entry_id = Some ''idB'', entry_title = Some ''Song B'',
                                   entry_url = Some ''url/B''\<rparr>])) = NoRelated"
    by (simp add: related_next_def)
  ultimately show ?thesis using sel s by auto
qed

section \<open>Relative upload time\<close>

lemma bucket_count:
  fixes d k m :: int
  assumes "0 < k" and "k \<le> d" and "d < k * m"
  shows "1 \<le> d div k \<and> d div k < m"
proof -
  have "k div k \<le> d div k" using assms(1,2) by (intro zdiv_mono1) simp_all
  then have a: "1 \<le> d div k" using assms(1) by simp
  have split: "k * (d div k) + d mod k = d" by simp
  have "0 \<le> d mod k" using assms(1) by simp
  with split have le: "k * (d div k) \<le> d" by linarith
  have "d div k < m"
  proof (rule ccontr)
    assume "\<not> d div k < m"
    then have "m \<le> d div k" by simp
    then have "k * m \<le> k * (d div k)" using assms(1) by (simp add: mult_left_mono)
    with le assms(3) show False by linarith
  qed
  with a show ?thesis by simp
qed

text \<open>
  Claim C7: the relative time of a difference \<open>d\<close> of seconds is \<^verbatim>\<open>just now\<close> below 60,
  then the whole minutes below 3600, hours below 86400, days below 604800, weeks below
  2635200, months below 31622400 and years from there on; each count is the quotient of
  the integer division, at least 1 and below the size of the next bucket; 5000 seconds
  give \<^verbatim>\<open>1 hours ago\<close>. The difference is that of \<^verbatim>\<open>CURRENT_TIME\<close> and the entry's
  timestamp, when there is one.
\<close>

theorem C7_relative_time_buckets:
  shows "(d < 60 \<longrightarrow> relative_time d = ''just now'')
       \<and> (60 \<le> d \<and> d < 3600 \<longrightarrow>
            relative_time d = str_int (d div 60) @ '' minutes ago''
            \<and> 1 \<le> d div 60 \<and> d div 60 < 60)
       \<and> (3600 \<le> d \<and> d < 86400 \<longrightarrow>
            relative_time d = str_int (d div 3600) @ '' hours ago''
            \<and> 1 \<le> d div 3600 \<and> d div 3600 < 24)
       \<and> (86400 \<le> d \<and> d < 604800 \<longrightarrow>
            relative_time d = str_int (d div 86400) @ '' days ago''
            \<and> 1 \<le> d div 86400 \<and> d div 86400 < 7)
       \<and> (604800 \<le> d \<and> d < 2635200 \<longrightarrow>
            relative_time d = str_int (d div 604800) @ '' weeks ago''
            \<and> 1 \<le> d div 604800 \<and> d div 604800 < 5)
       \<and> (2635200 \<le> d \<and> d < 31622400 \<longrightarrow>
            relative_time d = str_int (d div 2635200) @ '' months ago''
            \<and> 1 \<le> d div 2635200 \<and> d div 2635200 < 13)
       \<and> (31622400 \<le> d \<longrightarrow>
            relative_time d = str_int (d div 31622400) @ '' years ago''
            \<and> 1 \<le> d div 31622400)
       \<and> relative_time 5000 = ''1 hours ago''
       \<and> (ts \<noteq> 0 \<longrightarrow> timestamp_str now (Some ts) = relative_time (now - ts))"
proof (intro conjI impI)
  show "relative_time 5000 = ''1 hours ago''"
    by (simp add: relative_time_def str_int_def str_nat.simps)
next
  assume "ts \<noteq> 0"
  then show "timestamp_str now (Some ts) = relative_time (now - ts)"
    by (simp add: timestamp_str_def)
next
  assume "d < 60" then show "relative_time d = ''just now''" by (simp add: relative_time_def)
next
  assume h: "60 \<le> d \<and> d < 3600"
  then show "relative_time d = str_int (d div 60) @ '' minutes ago''"
    by (simp add: relative_time_def)
  from h bucket_count [of 60 d 60] show "1 \<le> d div 60" and "d div 60 < 60" by simp_all
next
  assume h: "3600 \<le> d \<and> d < 86400"
  then show "relative_time d = str_int (d div 3600) @ '' hours ago''"
    by (simp add: relative_time_def)
  from h bucket_count [of 3600 d 24] show "1 \<le> d div 3600" and "d div 3600 < 24" by simp_all
next
  assume h: "86400 \<le> d \<and> d < 604800"
  then show "relative_time d = str_int (d div 86400) @ '' days ago''"
    by (simp add: relative_time_def)
  from h bucket_count [of 86400 d 7] show "1 \<le> d div 86400" and "d div 86400 < 7" by simp_all
next
  assume h: "604800 \<le> d \<and> d < 2635200"
  then show "relative_time d = str_int (d div 604800) @ '' weeks ago''"
    by (simp add: relative_time_def)
  from h bucket_count [of 604800 d 5] show "1 \<le> d div 604800" and "d div 604800 < 5"
    by simp_all
next
  assume h: "2635200 \<le> d \<and> d < 31622400"
  then show "relative_time d = str_int (d div 2635200) @ '' months ago''"
    by (simp add: relative_time_def)
  from h bucket_count [of 2635200 d 13] show "1 \<le> d div 2635200" and "d div 2635200 < 13"
    by simp_all
next
  assume h: "31622400 \<le> d"
  then show "relative_time d = str_int (d div 31622400) @ '' years ago''"
    by (simp add: relative_time_def)
  have "31622400 div 31622400 \<le> d div (31622400::int)" using h by (intro zdiv_mono1) simp_all
  then show "1 \<le> d div 31622400" by simp
qed

theorem C7_relative_time_buckets_witness:
  "relative_time 59 = ''just now''
   \<and> relative_time 60 = ''1 minutes ago'' \<and> relative_time 3599 = ''59 minutes ago''
   \<and> relative_time 3600 = ''1 hours ago'' \<and> relative_time 5000 = ''1 hours ago''
   \<and> relative_time 86399 = ''23 hours ago''
   \<and> relative_time 86400 = ''1 days ago'' \<and> relative_time 604799 = ''6 days ago''
   \<and> relative_time 604800 = ''1 weeks ago'' \<and> relative_time 2635199 = ''4 weeks ago''
   \<and> relative_time 2635200 = ''1 months ago'' \<and> relative_time 31622399 = ''11 months ago''
   \<and> relative_time 31622400 = ''1 years ago'' \<and> relative_time 100000000 = ''3 years ago''
   \<and> (1700000000::int) \<noteq> 0
   \<and> timestamp_str 1700005000 (Some 1700000000) = ''1 hours ago''"
  using C7_relative_time_buckets [of 59] C7_relative_time_buckets [of 60]
    C7_relative_time_buckets [of 3599] C7_relative_time_buckets [of 3600]
    C7_relative_time_buckets [of 5000 1700000000 1700005000]
    C7_relative_time_buckets [of 86399] C7_relative_time_buckets [of 86400]
    C7_relative_time_buckets [of 604799] C7_relative_time_buckets [of 604800]
    C7_relative_time_buckets [of 2635199] C7_relative_time_buckets [of 2635200]
    C7_relative_time_buckets [of 31622399] C7_relative_time_buckets [of 31622400]
    C7_relative_time_buckets [of 100000000]
  by (simp add: str_int_def str_nat.simps)

section \<open>Search history\<close>

lemma rstrip_fixed: "u \<noteq> [] \<Longrightarrow> \<not> is_space (last u) \<Longrightarrow> rstrip u = u"
  by (cases u rule: rev_cases) (simp_all add: rstrip_def)

lemma lstrip_fixed: "u \<noteq> [] \<Longrightarrow> \<not> is_space (hd u) \<Longrightarrow> lstrip u = u"
  by (cases u) (simp_all add: lstrip_def)

lemma strip_fixed:
  "u \<noteq> [] \<Longrightarrow> \<not> is_space (hd u) \<Longrightarrow> \<not> is_space (last u) \<Longrightarrow> strip u = u"
  by (simp add: strip_def lstrip_fixed rstrip_fixed)

lemma rstrip_last: "rstrip u \<noteq> [] \<Longrightarrow> \<not> is_space (last (rstrip u))"
  unfolding rstrip_def
  by (metis hd_dropWhile last_rev rev_is_Nil_conv)

lemma rstrip_prefix: "rstrip u @ rev (takeWhile is_space (rev u)) = u"
proof -
  have "rev (takeWhile is_space (rev u) @ dropWhile is_space (rev u)) = rev (rev u)"
    by (simp only: takeWhile_dropWhile_id)
  then show ?thesis by (simp only: rev_append rev_rev_ident rstrip_def)
qed

lemma rstrip_hd: "rstrip u \<noteq> [] \<Longrightarrow> hd (rstrip u) = hd u"
  by (metis hd_append2 rstrip_prefix)

lemma lstrip_hd: "lstrip s \<noteq> [] \<Longrightarrow> \<not> is_space (hd (lstrip s))"
  unfolding lstrip_def by (rule hd_dropWhile)

lemma strip_shape:
  assumes "strip s \<noteq> []"
  shows "\<not> is_space (hd (strip s)) \<and> \<not> is_space (last (strip s))"
proof -
  from assms have ne: "lstrip s \<noteq> []" by (auto simp add: strip_def rstrip_def)
  have "hd (strip s) = hd (lstrip s)" using assms by (simp add: strip_def rstrip_hd)
  with ne have "\<not> is_space (hd (strip s))" by (simp add: lstrip_hd)
  moreover have "\<not> is_space (last (strip s))" using assms by (simp add: strip_def rstrip_last)
  ultimately show ?thesis by simp
qed

lemma strip_Nil: "strip [] = []"
  by (simp add: strip_def lstrip_def rstrip_def)

lemma strip_idem: "strip (strip s) = strip s"
proof (cases "strip s = []")
  case True
  then show ?thesis by (simp only: strip_Nil)
next
  case False
  then show ?thesis using strip_shape [OF False] by (simp add: strip_fixed)
qed

lemma strip_subset: "set (strip s) \<subseteq> set s"
proof -
  have "set (rstrip u) \<subseteq> set u" for u
    using set_dropWhileD [of _ is_space "rev u"] by (auto simp add: rstrip_def)
  moreover have "set (lstrip s) \<subseteq> set s"
    using set_dropWhileD [of _ is_space s] by (auto simp add: lstrip_def)
  ultimately show ?thesis unfolding strip_def by blast
qed

lemma split_lines_no_break:
  "l \<in> set (split_lines s) \<Longrightarrow> list_all (\<lambda>c. \<not> is_line_break c) l"
proof (induction s arbitrary: l)
  case Nil
  then show ?case by simp
next
  case (Cons c cs)
  show ?case
  proof (cases "is_line_break c")
    case True
    with Cons show ?thesis by auto
  next
    case False
    show ?thesis
    proof (cases "split_lines cs")
      case Nil
      with False Cons.prems show ?thesis by simp
    next
      case (Cons k ks)
      with False Cons.prems have "l = c # k \<or> l \<in> set ks" by simp
      moreover have "list_all (\<lambda>c. \<not> is_line_break c) k" and "\<forall>x\<in>set ks. list_all (\<lambda>c. \<not> is_line_break c) x"
        using Cons Cons.IH by simp_all
      ultimately show ?thesis using False by auto
    qed
  qed
qed

lemma split_lines_line:
  "list_all (\<lambda>c. \<not> is_line_break c) l \<Longrightarrow>
     split_lines (l @ CHR 0x0A # rest) = l # split_lines rest"
  by (induction l) (simp_all add: is_line_break_def)

lemma write_history_Cons:
  "write_history (l # ls) = l @ CHR 0x0A # (if ls = [] then [] else write_history ls)"
  by (cases ls) (simp_all add: write_history_def)

lemma split_lines_written:
  "\<forall>l\<in>set ls. list_all (\<lambda>c. \<not> is_line_break c) l \<Longrightarrow> ls \<noteq> [] \<Longrightarrow>
     split_lines (write_history ls) = ls"
proof (induction ls)
  case Nil
  then show ?case by simp
next
  case (Cons l ls)
  then have l: "list_all (\<lambda>c. \<not> is_line_break c) l" by simp
  show ?case
  proof (cases "ls = []")
    case True
    with l show ?thesis by (simp add: write_history_Cons split_lines_line)
  next
    case False
    with Cons have "split_lines (write_history ls) = ls" by simp
    with l False show ?thesis by (simp add: write_history_Cons split_lines_line)
  qed
qed

lemma history_lines_entries: "l \<in> set (history_lines f) \<Longrightarrow> is_entry l"
proof (cases f)
  case None
  assume "l \<in> set (history_lines f)"
  with None show ?thesis by (simp add: history_lines_def)
next
  case (Some content)
  assume "l \<in> set (history_lines f)"
  with Some obtain k where k: "k \<in> set (split_lines content)" "l = strip k" "strip k \<noteq> []"
    by (auto simp add: history_lines_def)
  from k(1) have "list_all (\<lambda>c. \<not> is_line_break c) k" by (rule split_lines_no_break)
  with strip_subset [of k] have "list_all (\<lambda>c. \<not> is_line_break c) (strip k)"
    by (auto simp add: list_all_iff)
  with k show ?thesis by (simp add: is_entry_def strip_idem)
qed

lemma history_lines_written:
  assumes "\<forall>l\<in>set ls. is_entry l" and "ls \<noteq> []"
  shows "history_lines (Some (write_history ls)) = ls"
proof -
  from assms have "split_lines (write_history ls) = ls"
    by (intro split_lines_written) (simp_all add: is_entry_def)
  moreover have "[strip l. l \<leftarrow> ls, strip l \<noteq> []] = ls"
    using assms(1) by (induction ls) (simp_all add: is_entry_def)
  ultimately show ?thesis by (simp add: history_lines_def)
qed

lemma history_update_filter:
  "history_update f t = filter (\<lambda>l. l \<noteq> t) (history_lines f) @ [t]"
proof (cases f)
  case None
  then show ?thesis by (simp add: history_update_def history_lines_def)
next
  case (Some content)
  have "[strip l. l \<leftarrow> ls, strip l \<noteq> [] \<and> strip l \<noteq> t]
          = filter (\<lambda>l. l \<noteq> t) [strip l. l \<leftarrow> ls, strip l \<noteq> []]" for ls
    by (induction ls) simp_all
  with Some show ?thesis by (simp add: history_update_def history_lines_def)
qed

lemma history_update_distinct:
  "distinct (history_lines f) \<Longrightarrow> distinct (history_update f t)"
  by (simp add: history_update_filter)

lemma history_update_reread:
  assumes "is_entry t"
  shows "history_lines (Some (write_history (history_update f t))) = history_update f t"
proof -
  have "\<forall>l\<in>set (history_update f t). is_entry l"
    using assms by (auto simp add: history_update_filter history_lines_entries)
  moreover have "history_update f t \<noteq> []" by (simp add: history_update_filter)
  ultimately show ?thesis by (rule history_lines_written)
qed

lemma searches_distinct:
  "distinct (history_lines f) \<Longrightarrow> \<forall>t\<in>set ts. is_entry t \<Longrightarrow>
     distinct (history_lines (searches f ts))"
proof (induction ts arbitrary: f)
  case Nil
  then show ?case by simp
next
  case (Cons t ts)
  then have "is_entry t" by simp
  then have "history_lines (Some (write_history (history_update f t))) = history_update f t"
    by (rule history_update_reread)
  with Cons.prems(1) have "distinct (history_lines (Some (write_history (history_update f t))))"
    by (simp add: history_update_distinct)
  with Cons show ?case by simp
qed

lemma last_n_length: "length (last_n n xs) \<le> n"
  by (simp add: last_n_def)

lemma last_n_distinct: "distinct xs \<Longrightarrow> distinct (last_n n xs)"
  by (simp add: last_n_def)

text \<open>
  Claim C2, as the specification states it, fails: the update of lines 673-681 writes back
  every other entry of the file and never truncates, so after eleven different searches the
  file holds eleven entries.
\<close>

theorem C2_persisted_history_counterexample:
  "\<not> length (history_lines (searches None
        [''a'', ''b'', ''c'', ''d'', ''e'', ''f'', ''g'', ''h'', ''i'', ''j'', ''k''])) \<le> 10"
  by (simp add: history_lines_def history_update_def write_history_def is_line_break_def
      strip_def lstrip_def rstrip_def is_space_def)

text \<open>
  Claim C2, amended: on a history without duplicates, a literal search for an entry \<open>t\<close>
  (non-empty, without surrounding white space and without line break, as the prompt returns
  it) writes the other entries in their order followed by \<open>t\<close>: no two written entries are
  equal, \<open>t\<close> is the last one, and reading the written text back gives these entries. The
  file is not truncated; the cap of 10 is that of the history shown by the prompt, which is
  the last ten written entries, most recent first: the oldest are left out first. Every
  further sequence of such searches keeps the entries distinct.
\<close>

theorem C2_history_update:
  assumes "distinct (history_lines f)" and "is_entry t"
  shows "history_update f t = filter (\<lambda>l. l \<noteq> t) (history_lines f) @ [t]
       \<and> distinct (history_update f t)
       \<and> last (history_update f t) = t
       \<and> history_lines (Some (write_history (history_update f t))) = history_update f t
       \<and> shown_history (Some (write_history (history_update f t)))
           = rev (last_n 10 (history_update f t))
       \<and> length (shown_history (Some (write_history (history_update f t)))) \<le> 10
       \<and> distinct (shown_history (Some (write_history (history_update f t))))
       \<and> hd (shown_history (Some (write_history (history_update f t)))) = t
       \<and> ((\<forall>x\<in>set ts. is_entry x) \<longrightarrow> distinct (history_lines (searches f ts)))"
proof -
  let ?w = "Some (write_history (history_update f t))"
  have a: "history_update f t = filter (\<lambda>l. l \<noteq> t) (history_lines f) @ [t]"
    by (rule history_update_filter)
  have b: "distinct (history_update f t)" using assms(1) by (rule history_update_distinct)
  have c: "last (history_update f t) = t" by (simp add: a)
  have d: "history_lines ?w = history_update f t"
    using assms(2) by (rule history_update_reread)
  have e: "shown_history ?w = rev (last_n 10 (history_update f t))"
    by (simp add: shown_history_def d)
  have f: "length (shown_history ?w) \<le> 10"
    by (simp add: e last_n_length)
  have g: "distinct (shown_history ?w)"
    using b by (simp add: e last_n_distinct)
  have "last (last_n 10 (history_update f t)) = t"
    by (simp add: a last_n_def)
  moreover have "last_n 10 (history_update f t) \<noteq> []"
    by (simp add: a last_n_def)
  ultimately have h: "hd (shown_history ?w) = t"
    by (simp add: e hd_rev)
  have i: "(\<forall>x\<in>set ts. is_entry x) \<longrightarrow> distinct (history_lines (searches f ts))"
    using assms(1) by (simp add: searches_distinct)
  from a b c d e f g h i show ?thesis by blast
qed

theorem C2_history_update_witness:
  "history_lines (Some (''cats'' @ [CHR 0x0D, CHR 0x0A] @ '' dogs '' @ [CHR 0x0A] @ ''birds''))
     = [''cats'', ''dogs'', ''birds'']
   \<and> distinct (history_lines
         (Some (''cats'' @ [CHR 0x0D, CHR 0x0A] @ '' dogs '' @ [CHR 0x0A] @ ''birds'')))
   \<and> is_entry ''cats''
   \<and> history_update (Some (''cats'' @ [CHR 0x0D, CHR 0x0A] @ '' dogs '' @ [CHR 0x0A] @ ''birds''))
        ''cats'' = [''dogs'', ''birds'', ''cats'']
   \<and> write_history [''dogs'', ''birds'', ''cats'']
       = ''dogs'' @ [CHR 0x0A] @ ''birds'' @ [CHR 0x0A] @ ''cats'' @ [CHR 0x0A]
   \<and> history_lines (Some (write_history [''dogs'', ''birds'', ''cats'']))
       = [''dogs'', ''birds'', ''cats'']
   \<and> shown_history (Some (write_history [''dogs'', ''birds'', ''cats'']))
       = [''cats'', ''birds'', ''dogs'']
   \<and> is_entry ''dogs'' \<and> is_entry ''fish''
   \<and> history_lines (searches
          (Some (''cats'' @ [CHR 0x0D, CHR 0x0A] @ '' dogs '' @ [CHR 0x0A] @ ''birds''))
          [''dogs'', ''fish''])
       = [''cats'', ''birds'', ''dogs'', ''fish'']
   \<and> \<not> is_entry ([CHR 0xA0] @ ''cats'') \<and> \<not> is_entry (''cats'' @ [CHR 0x0A] @ ''dogs'')
   \<and> shown_history (searches None
        [''a'', ''b'', ''c'', ''d'', ''e'', ''f'', ''g'', ''h'', ''i'', ''j'', ''k''])
       = [''k'', ''j'', ''i'', ''h'', ''g'', ''f'', ''e'', ''d'', ''c'', ''b'']"
  using C2_history_update
    [of "Some (''cats'' @ [CHR 0x0D, CHR 0x0A] @ '' dogs '' @ [CHR 0x0A] @ ''birds'')" "''cats''"
        "[''dogs'', ''fish'']"]
  by (simp add: history_lines_def history_update_def write_history_def shown_history_def
      last_n_def is_entry_def is_line_break_def strip_def lstrip_def rstrip_def is_space_def)

section \<open>Keys of the text artifacts\<close>

lemma strip_ordinal_prefixed:
  assumes "d \<noteq> []" and "\<forall>c\<in>set d. is_digit c"
  shows "strip_ordinal (d @ CHR '' '' # s) = s"
proof -
  have sp: "\<not> is_digit CHR '' ''" by (simp add: is_digit_def)
  have t: "takeWhile is_digit (d @ CHR '' '' # s) = d"
    using assms(2) sp by (simp add: takeWhile_append2)
  have dr: "dropWhile is_digit (d @ CHR '' '' # s) = CHR '' '' # s"
    using assms(2) sp by (simp add: dropWhile_append2)
  from t dr assms(1) show ?thesis by (simp add: strip_ordinal_def has_ordinal_def)
qed

lemma digit_char: "k < 10 \<Longrightarrow> is_digit (''0123456789'' ! k)"
  unfolding is_digit_def by (rule nth_mem) simp

lemma str_nat_digits: "str_nat n \<noteq> [] \<and> (\<forall>c\<in>set (str_nat n). is_digit c)"
proof (induction n rule: str_nat.induct)
  case (1 n)
  show ?case
  proof (cases "n < 10")
    case True
    then show ?thesis by (simp add: str_nat.simps [of n] digit_char)
  next
    case False
    with 1 have "\<forall>c\<in>set (str_nat (n div 10)). is_digit c" by simp
    moreover have "is_digit (''0123456789'' ! (n mod 10))" by (rule digit_char) simp
    ultimately show ?thesis using False by (simp add: str_nat.simps [of n])
  qed
qed

lemma ordinal_digits: "ordinal n i \<noteq> [] \<and> (\<forall>c\<in>set (ordinal n i). is_digit c)"
  using str_nat_digits [of "i + 1"] by (auto simp add: ordinal_def Let_def is_digit_def)

lemma replace_newlines_idem: "replace_newlines (replace_newlines s) = replace_newlines s"
  by (simp add: replace_newlines_def)

lemma clean_title_of_annotated:
  "clean_title_of (annotate_title n i (Some r)) = replace_newlines r"
  using ordinal_digits [of n i]
  by (simp add: clean_title_of_def annotate_title_def strip_ordinal_prefixed replace_newlines_idem)

subsection \<open>Two digests\<close>

lemma replicate_numeral_Cons:
  "replicate (numeral k) x = x # replicate (pred_numeral k) x"
  by (simp add: numeral_eq_Suc)

lemma sha256_abc:
  "sha256_hexdigest (encode_utf8 ''abc'') =
     ''ba7816bf8f01cfea414140de5dae2223b00361a396177a9cb410ff61f20015ad''"
proof -
  let ?blk = "[0x61626380, 0x00000000, 0x00000000, 0x00000000, 0x00000000, 0x00000000,
              0x00000000, 0x00000000, 0x00000000, 0x00000000, 0x00000000, 0x00000000, 0x00000000,
              0x00000000, 0x00000000, 0x00000018]"
  let ?wa = "[0x61626380, 0x000f0000, 0x7da86405, 0x600003c6, 0x3e9d7b78, 0x0183fc00, 0x12dcbfdb,
             0xe2e2c38e]"
  let ?wb = "[0xc8215c1a, 0xb73679a2, 0xe5bc3909, 0x32663c5b, 0x9d209d67, 0xec8726cb, 0x702138a4,
             0xd3b7973b]"
  let ?wc = "[0x93f5997f, 0x3b68ba73, 0xaff4ffc1, 0xf10a5c62, 0x0a8b3996, 0x72af830a, 0x9409e33e,
             0x24641522]"
  let ?wd = "[0x9f47bf94, 0xf0a64f5a, 0x3e246a79, 0x27333ba3, 0x0c4763f2, 0x840abf27, 0x7a290d5d,
             0x065c43da]"
  let ?we = "[0xfb3e89cb, 0xcc7617db, 0xb9e66c34, 0xa9993667, 0x84badedd, 0xc21462bc, 0x1487472c,
             0xb20f7a99]"
  let ?wf = "[0xef57b9cd, 0xebe6b238, 0x9fe3095e, 0x78bc8d4b, 0xa43fcf15, 0x668b2ff8, 0xeeaba2cc,
             0x12b1edeb]"
  have blk: "words_of (pad (encode_utf8 ''abc'')) = ?blk"
    by (simp add: encode_utf8_def pad_def replicate_numeral_Cons)
  have sa: "fold schedule_step [16..<24] (?blk) = ?blk @ ?wa"
    by (simp add: schedule_step_def sigma0_def sigma1_def rotr_def upt_rec_numeral)
  have sb: "fold schedule_step [24..<32] (?blk @ ?wa) = ?blk @ ?wa @ ?wb"
    by (simp add: schedule_step_def sigma0_def sigma1_def rotr_def upt_rec_numeral)
  have sc: "fold schedule_step [32..<40] (?blk @ ?wa @ ?wb) = ?blk @ ?wa @ ?wb @ ?wc"
    by (simp add: schedule_step_def sigma0_def sigma1_def rotr_def upt_rec_numeral)
  have sd: "fold schedule_step [40..<48] (?blk @ ?wa @ ?wb @ ?wc) = ?blk @ ?wa @ ?wb @ ?wc @ ?wd"
    by (simp add: schedule_step_def sigma0_def sigma1_def rotr_def upt_rec_numeral)
  have se: "fold schedule_step [48..<56] (?blk @ ?wa @ ?wb @ ?wc @ ?wd) = ?blk @ ?wa @ ?wb @ ?wc @ ?wd @ ?we"
    by (simp add: schedule_step_def sigma0_def sigma1_def rotr_def upt_rec_numeral)
  have sf: "fold schedule_step [56..<64] (?blk @ ?wa @ ?wb @ ?wc @ ?wd @ ?we) = ?blk @ ?wa @ ?wb @ ?wc @ ?wd @ ?we @ ?wf"
    by (simp add: schedule_step_def sigma0_def sigma1_def rotr_def upt_rec_numeral)
  have u: "[16..<64] = [16..<24] @ [24..<32] @ [32..<40] @ [40..<48] @ [48..<56] @ [56..<64]"
    by (simp add: upt_rec_numeral)
  have sch: "schedule ?blk = ?blk @ ?wa @ ?wb @ ?wc @ ?wd @ ?we @ ?wf"
    unfolding schedule_def u by (simp only: fold_append o_apply sa sb sc sd se sf)
  let ?ra = "(0x85a07b5f, 0xe5030380, 0x2b4209f5, 0x4409a6a, 0xc657a79, 0x9b27a401, 0x714260ad,
             0x43ada245)"
  let ?rb = "(0xb0fa238e, 0xc0645fde, 0xd932eb16, 0x87912990, 0x7590dcd, 0xb92f20c, 0x745a48de,
             0x1e578218)"
  let ?rc = "(0xc5d53d8d, 0xa7a3623f, 0xc2606d6d, 0x9dc68b63, 0xaa47c347, 0x49f5114a, 0xe1257970,
             0x8ada8930)"
  let ?rd = "(0x73b33bf5, 0xea992a22, 0xa0060b30, 0x363482c9, 0xba591112, 0x109ab3a, 0xade79437,
             0x6112a3b7)"
  let ?re = "(0x79ea687a, 0x6dc57a8a, 0x34df1604, 0x41a65cb1, 0x1efbc0a0, 0xf0781bc8, 0xa507a53d,
             0x772a26b)"
  let ?rf = "(0x4172328d, 0xa14c14b0, 0x72ab4b91, 0x26628815, 0xfecf0bc6, 0xd57b94a9, 0xb7755da1,
             0xa80f11f0)"
  let ?rg = "(0x38cc9913, 0x3ec45cdb, 0xf5702fdb, 0x101fd28f, 0x54cb266b, 0xe50e1b4f, 0x9f4787c3,
             0x529e7d00)"
  let ?rh = "(0x506e3058, 0xd39a2165, 0x4d24d6c, 0xb85e2ce9, 0x5ef50f24, 0xfb121210, 0x948d25b6,
             0x961f4894)"
  have ra: "foldl sha_round ((0x6a09e667, 0xbb67ae85, 0x3c6ef372, 0xa54ff53a, 0x510e527f, 0x9b05688c, 0x1f83d9ab, 0x5be0cd19)) (zip (take 8 (drop 0 K256)) (take 8 ?blk)) = ?ra"
    by (simp add: K256_def rotr_def Sigma0_def Sigma1_def Ch_def Maj_def)
  have rb: "foldl sha_round ?ra (zip (take 8 (drop 8 K256)) (drop 8 ?blk)) = ?rb"
    by (simp add: K256_def rotr_def Sigma0_def Sigma1_def Ch_def Maj_def)
  have rc: "foldl sha_round ?rb (zip (take 8 (drop 16 K256)) (?wa)) = ?rc"
    by (simp add: K256_def rotr_def Sigma0_def Sigma1_def Ch_def Maj_def)
  have rd: "foldl sha_round ?rc (zip (take 8 (drop 24 K256)) (?wb)) = ?rd"
    by (simp add: K256_def rotr_def Sigma0_def Sigma1_def Ch_def Maj_def)
  have re: "foldl sha_round ?rd (zip (take 8 (drop 32 K256)) (?wc)) = ?re"
    by (simp add: K256_def rotr_def Sigma0_def Sigma1_def Ch_def Maj_def)
  have rf: "foldl sha_round ?re (zip (take 8 (drop 40 K256)) (?wd)) = ?rf"
    by (simp add: K256_def rotr_def Sigma0_def Sigma1_def Ch_def Maj_def)
  have rg: "foldl sha_round ?rf (zip (take 8 (drop 48 K256)) (?we)) = ?rg"
    by (simp add: K256_def rotr_def Sigma0_def Sigma1_def Ch_def Maj_def)
  have rh: "foldl sha_round ?rg (zip (take 8 (drop 56 K256)) (?wf)) = ?rh"
    by (simp add: K256_def rotr_def Sigma0_def Sigma1_def Ch_def Maj_def)
  have z: "zip K256 (?blk @ ?wa @ ?wb @ ?wc @ ?wd @ ?we @ ?wf) =
      zip (take 8 (drop 0 K256)) (take 8 ?blk)
      @ zip (take 8 (drop 8 K256)) (drop 8 ?blk)
      @ zip (take 8 (drop 16 K256)) (?wa)
      @ zip (take 8 (drop 24 K256)) (?wb)
      @ zip (take 8 (drop 32 K256)) (?wc)
      @ zip (take 8 (drop 40 K256)) (?wd)
      @ zip (take 8 (drop 48 K256)) (?we)
      @ zip (take 8 (drop 56 K256)) (?wf)"
    by (simp add: K256_def)
  have "foldl sha_round ((0x6a09e667, 0xbb67ae85, 0x3c6ef372, 0xa54ff53a, 0x510e527f, 0x9b05688c, 0x1f83d9ab, 0x5be0cd19)) (zip K256 (schedule ?blk)) = ?rh"
    unfolding sch z by (simp only: foldl_append ra rb rc rd re rf rg rh)
  then have "compress H256 ?blk = (0xba7816bf, 0x8f01cfea, 0x414140de, 0x5dae2223, 0xb00361a3,
                                     0x96177a9c, 0xb410ff61, 0xf20015ad)"
    by (simp add: compress_def H256_def)
  then show ?thesis
    by (simp add: sha256_hexdigest_def sha256_def blk hex32_def)
qed

lemma sha256_12_abc:
  "sha256_hexdigest (encode_utf8 ''12 abc'') =
     ''f5a20ede1b32d985493ab944c6476d01c065a3c995ef6cb5ea4d396b53984247''"
proof -
  let ?blk = "[0x31322061, 0x62638000, 0x00000000, 0x00000000, 0x00000000, 0x00000000,
              0x00000000, 0x00000000, 0x00000000, 0x00000000, 0x00000000, 0x00000000, 0x00000000,
              0x00000000, 0x00000000, 0x00000030]"
  let ?wa = "[0x1dbacff9, 0x62818000, 0x3e04c3d9, 0xf0189d70, 0xf99839f2, 0x5d2a6028, 0x1bf94621,
             0x99c13fa1]"
  let ?wb = "[0xee53d0d2, 0xf6075370, 0x82615b87, 0x3d841e09, 0xe3be0952, 0xa8c41e96, 0xbf8901d1,
             0xbd79ec8d]"
  let ?wc = "[0x2154597e, 0x3625f16c, 0xfbe0820a, 0x0f294497, 0xb6ec42c3, 0xb84eaacf, 0xa26b0d64,
             0x874837d2]"
  let ?wd = "[0x37a0fb42, 0x58c3a019, 0x069919d4, 0xd46e1e34, 0x8bca7bd8, 0x0d137512, 0x317d80bb,
             0xb77a978d]"
  let ?we = "[0x8d5293ce, 0x7fe32ef4, 0x6aeb1db6, 0x0eafc69b, 0xd441a0e3, 0x23ba1829, 0xf6515cf8,
             0x1ffffa42]"
  let ?wf = "[0x0f12c15e, 0xb4c8827c, 0x42780e2b, 0x38a5b772, 0xaf41b67d, 0x8121cb7e, 0xe7baf722,
             0xcbc185bb]"
  have blk: "words_of (pad (encode_utf8 ''12 abc'')) = ?blk"
    by (simp add: encode_utf8_def pad_def replicate_numeral_Cons)
  have sa: "fold schedule_step [16..<24] (?blk) = ?blk @ ?wa"
    by (simp add: schedule_step_def sigma0_def sigma1_def rotr_def upt_rec_numeral)
  have sb: "fold schedule_step [24..<32] (?blk @ ?wa) = ?blk @ ?wa @ ?wb"
    by (simp add: schedule_step_def sigma0_def sigma1_def rotr_def upt_rec_numeral)
  have sc: "fold schedule_step [32..<40] (?blk @ ?wa @ ?wb) = ?blk @ ?wa @ ?wb @ ?wc"
    by (simp add: schedule_step_def sigma0_def sigma1_def rotr_def upt_rec_numeral)
  have sd: "fold schedule_step [40..<48] (?blk @ ?wa @ ?wb @ ?wc) = ?blk @ ?wa @ ?wb @ ?wc @ ?wd"
    by (simp add: schedule_step_def sigma0_def sigma1_def rotr_def upt_rec_numeral)
  have se: "fold schedule_step [48..<56] (?blk @ ?wa @ ?wb @ ?wc @ ?wd) = ?blk @ ?wa @ ?wb @ ?wc @ ?wd @ ?we"
    by (simp add: schedule_step_def sigma0_def sigma1_def rotr_def upt_rec_numeral)
  have sf: "fold schedule_step [56..<64] (?blk @ ?wa @ ?wb @ ?wc @ ?wd @ ?we) = ?blk @ ?wa @ ?wb @ ?wc @ ?wd @ ?we @ ?wf"
    by (simp add: schedule_step_def sigma0_def sigma1_def rotr_def upt_rec_numeral)
  have u: "[16..<64] = [16..<24] @ [24..<32] @ [32..<40] @ [40..<48] @ [48..<56] @ [56..<64]"
    by (simp add: upt_rec_numeral)
  have sch: "schedule ?blk = ?blk @ ?wa @ ?wb @ ?wc @ ?wd @ ?we @ ?wf"
    unfolding schedule_def u by (simp only: fold_append o_apply sa sb sc sd se sf)
  let ?ra = "(0x471bb26d, 0x4c7fa073, 0x8a8ffabd, 0x257a6015, 0x1c38e7c3, 0x40f366cf, 0x48e448b,
             0xa1af292e)"
  let ?rb = "(0x3aa739df, 0xfa74b3b4, 0x981cc320, 0x79f1bc80, 0x3ebabcb0, 0xd315fc95, 0x2f4d999b,
             0x7883650)"
  let ?rc = "(0xe2c268a0, 0x2f2a1266, 0x78cc9aae, 0x8491c824, 0x835db3af, 0xef1969e7, 0x92b1c16d,
             0x7b6a2572)"
  let ?rd = "(0xf01fc530, 0xf8418bec, 0x55a0437e, 0x1e4d51a1, 0xb6dddc9a, 0xaa8d0c3f, 0xe487498a,
             0x63ad4cb6)"
  let ?re = "(0x98ebe08c, 0x3d694489, 0x9211f718, 0x27445c57, 0xcc1b0004, 0xa205d86f, 0x95dfac79,
             0x613cf6aa)"
  let ?rf = "(0xae17560, 0xa3523884, 0xda47f6ef, 0xd043c3a4, 0x89f5d17a, 0x963a363b, 0xb005299f,
             0x6d6a30b)"
  let ?rg = "(0xffa5f79c, 0x795e9543, 0x682e24ee, 0xecdb9993, 0xea9efe2f, 0x5aba36cb, 0xb6517f90,
             0xc49e2b0)"
  let ?rh = "(0x8b982877, 0x5fcb2b00, 0xccbc5d2, 0x20f777c7, 0x6f57514a, 0xfaea0429, 0xcac95fc0,
             0xf7b7752e)"
  have ra: "foldl sha_round ((0x6a09e667, 0xbb67ae85, 0x3c6ef372, 0xa54ff53a, 0x510e527f, 0x9b05688c, 0x1f83d9ab, 0x5be0cd19)) (zip (take 8 (drop 0 K256)) (take 8 ?blk)) = ?ra"
    by (simp add: K256_def rotr_def Sigma0_def Sigma1_def Ch_def Maj_def)
  have rb: "foldl sha_round ?ra (zip (take 8 (drop 8 K256)) (drop 8 ?blk)) = ?rb"
    by (simp add: K256_def rotr_def Sigma0_def Sigma1_def Ch_def Maj_def)
  have rc: "foldl sha_round ?rb (zip (take 8 (drop 16 K256)) (?wa)) = ?rc"
    by (simp add: K256_def rotr_def Sigma0_def Sigma1_def Ch_def Maj_def)
  have rd: "foldl sha_round ?rc (zip (take 8 (drop 24 K256)) (?wb)) = ?rd"
    by (simp add: K256_def rotr_def Sigma0_def Sigma1_def Ch_def Maj_def)
  have re: "foldl sha_round ?rd (zip (take 8 (drop 32 K256)) (?wc)) = ?re"
    by (simp add: K256_def rotr_def Sigma0_def Sigma1_def Ch_def Maj_def)
  have rf: "foldl sha_round ?re (zip (take 8 (drop 40 K256)) (?wd)) = ?rf"
    by (simp add: K256_def rotr_def Sigma0_def Sigma1_def Ch_def Maj_def)
  have rg: "foldl sha_round ?rf (zip (take 8 (drop 48 K256)) (?we)) = ?rg"
    by (simp add: K256_def rotr_def Sigma0_def Sigma1_def Ch_def Maj_def)
  have rh: "foldl sha_round ?rg (zip (take 8 (drop 56 K256)) (?wf)) = ?rh"
    by (simp add: K256_def rotr_def Sigma0_def Sigma1_def Ch_def Maj_def)
  have z: "zip K256 (?blk @ ?wa @ ?wb @ ?wc @ ?wd @ ?we @ ?wf) =
      zip (take 8 (drop 0 K256)) (take 8 ?blk)
      @ zip (take 8 (drop 8 K256)) (drop 8 ?blk)
      @ zip (take 8 (drop 16 K256)) (?wa)
      @ zip (take 8 (drop 24 K256)) (?wb)
      @ zip (take 8 (drop 32 K256)) (?wc)
      @ zip (take 8 (drop 40 K256)) (?wd)
      @ zip (take 8 (drop 48 K256)) (?we)
      @ zip (take 8 (drop 56 K256)) (?wf)"
    by (simp add: K256_def)
  have "foldl sha_round ((0x6a09e667, 0xbb67ae85, 0x3c6ef372, 0xa54ff53a, 0x510e527f, 0x9b05688c, 0x1f83d9ab, 0x5be0cd19)) (zip K256 (schedule ?blk)) = ?rh"
    unfolding sch z by (simp only: foldl_append ra rb rc rd re rf rg rh)
  then have "compress H256 ?blk = (0xf5a20ede, 0x1b32d985, 0x493ab944, 0xc6476d01, 0xc065a3c9,
                                     0x95ef6cb5, 0xea4d396b, 0x53984247)"
    by (simp add: compress_def H256_def)
  then show ?thesis
    by (simp add: sha256_hexdigest_def sha256_def blk hex32_def)
qed

subsection \<open>The claim\<close>

text \<open>
  Claim C4, as the specification states it, fails. The titles \<^verbatim>\<open>01 12 abc\<close> and
  \<^verbatim>\<open>12 abc\<close> differ only by the leading ordinal prefix \<^verbatim>\<open>01\<close> and its space; they are
  the annotated titles of the video \<^verbatim>\<open>12 abc\<close> at the first place of a page of three and
  of the video \<^verbatim>\<open>abc\<close> at the twelfth place of a page of thirty. The regular expression
  removes one prefix from each, which leaves \<^verbatim>\<open>12 abc\<close> and \<^verbatim>\<open>abc\<close>, and the keys are the
  digests of these two texts. In the same way the title that has a newline between
  \<^verbatim>\<open>12\<close> and \<^verbatim>\<open>abc\<close> and the title \<^verbatim>\<open>12 abc\<close> differ only by a newline against a
  space: the first keeps its digits, since the prefix must end in a space, the second loses
  them.
\<close>

theorem C4_text_key_counterexample:
  "annotate_title 3 0 (Some ''12 abc'') = ''01 12 abc''
   \<and> annotate_title 30 11 (Some ''abc'') = ''12 abc''
   \<and> ''01 12 abc'' = ''01'' @ '' '' @ ''12 abc''
   \<and> filename_hash ''01 12 abc''
       = ''f5a20ede1b32d985493ab944c6476d01c065a3c995ef6cb5ea4d396b53984247''
   \<and> filename_hash ''12 abc''
       = ''ba7816bf8f01cfea414140de5dae2223b00361a396177a9cb410ff61f20015ad''
   \<and> filename_hash ''01 12 abc'' \<noteq> filename_hash ''12 abc''
   \<and> text_artifact ''01 12 abc'' \<noteq> text_artifact ''12 abc''
   \<and> replace_newlines (''12'' @ [CHR 0x0A] @ ''abc'') = replace_newlines ''12 abc''
   \<and> filename_hash (''12'' @ [CHR 0x0A] @ ''abc'')
       = ''f5a20ede1b32d985493ab944c6476d01c065a3c995ef6cb5ea4d396b53984247''
   \<and> filename_hash (''12'' @ [CHR 0x0A] @ ''abc'') \<noteq> filename_hash ''12 abc''"
proof -
  have o: "annotate_title 3 0 (Some ''12 abc'') = ''01 12 abc''"
    "annotate_title 30 11 (Some ''abc'') = ''12 abc''"
    by (simp_all add: annotate_title_def ordinal_def str_nat.simps replace_newlines_def)
  have c: "clean_title_of ''01 12 abc'' = ''12 abc''"
    "clean_title_of ''12 abc'' = ''abc''"
    "clean_title_of (''12'' @ [CHR 0x0A] @ ''abc'') = ''12 abc''"
    by (simp_all add: clean_title_of_def strip_ordinal_def has_ordinal_def is_digit_def
        replace_newlines_def)
  have k: "filename_hash ''01 12 abc''
       = ''f5a20ede1b32d985493ab944c6476d01c065a3c995ef6cb5ea4d396b53984247''"
    "filename_hash (''12'' @ [CHR 0x0A] @ ''abc'')
       = ''f5a20ede1b32d985493ab944c6476d01c065a3c995ef6cb5ea4d396b53984247''"
    by (simp_all only: filename_hash_def generate_sha256_def c option.case sha256_12_abc)
  have l: "filename_hash ''12 abc''
       = ''ba7816bf8f01cfea414140de5dae2223b00361a396177a9cb410ff61f20015ad''"
    by (simp only: filename_hash_def generate_sha256_def c option.case sha256_abc)
  have n: "filename_hash ''01 12 abc'' \<noteq> filename_hash ''12 abc''"
    "filename_hash (''12'' @ [CHR 0x0A] @ ''abc'') \<noteq> filename_hash ''12 abc''"
    unfolding k l by simp_all
  have a: "text_artifact ''01 12 abc'' \<noteq> text_artifact ''12 abc''"
    unfolding text_artifact_def k l by simp
  have r: "replace_newlines (''12'' @ [CHR 0x0A] @ ''abc'') = replace_newlines ''12 abc''"
    by (simp add: replace_newlines_def)
  have e: "''01 12 abc'' = ''01'' @ '' '' @ ''12 abc''" by simp
  from o e k(1) l n(1) a r k(2) n(2) show ?thesis by blast
qed

text \<open>
  Claim C4, amended: the key of a text artifact is the SHA-256 digest, in hexadecimal, of
  the UTF-8 text of the cleaned title, a function of the title alone; two titles have the
  same key whenever their cleaned titles (one ordinal prefix removed as the regular
  expression does, then newlines made spaces) are equal. So two titles that each carry an
  ordinal prefix (digits, then a space) and whose remainders are equal up to newlines against
  spaces have the same key and the same artifact file, whatever the two ordinals are; so
  have two titles without an ordinal prefix that are equal up to newlines against spaces, and
  a title with an ordinal prefix and one without whose remainders are; so have the annotated
  titles of two raw titles that are equal up to newlines against spaces, at any two positions
  of any two pages. In particular \<^verbatim>\<open>01 Song A\<close> and \<^verbatim>\<open>17 Song A\<close> share one artifact.
\<close>

theorem C4_text_key_stable:
  "filename_hash t1 = sha256_hexdigest (encode_utf8 (replace_newlines (strip_ordinal t1)))
   \<and> (replace_newlines (strip_ordinal t1) = replace_newlines (strip_ordinal t2) \<longrightarrow>
        filename_hash t1 = filename_hash t2 \<and> text_artifact t1 = text_artifact t2)
   \<and> (d1 \<noteq> [] \<and> (\<forall>c\<in>set d1. is_digit c) \<and> d2 \<noteq> [] \<and> (\<forall>c\<in>set d2. is_digit c)
      \<and> replace_newlines s1 = replace_newlines s2 \<longrightarrow>
        filename_hash (d1 @ '' '' @ s1) = filename_hash (d2 @ '' '' @ s2)
        \<and> text_artifact (d1 @ '' '' @ s1) = text_artifact (d2 @ '' '' @ s2))
   \<and> (\<not> has_ordinal t1 \<and> \<not> has_ordinal t2 \<and> replace_newlines t1 = replace_newlines t2 \<longrightarrow>
        filename_hash t1 = filename_hash t2)
   \<and> (d1 \<noteq> [] \<and> (\<forall>c\<in>set d1. is_digit c) \<and> \<not> has_ordinal t2
        \<and> replace_newlines s1 = replace_newlines t2 \<longrightarrow>
        filename_hash (d1 @ '' '' @ s1) = filename_hash t2)
   \<and> (replace_newlines r1 = replace_newlines r2 \<longrightarrow>
        filename_hash (annotate_title n i (Some r1))
          = filename_hash (annotate_title m j (Some r2)))
   \<and> filename_hash ''01 Song A'' = filename_hash ''17 Song A''"
proof (intro conjI impI)
  show "filename_hash t1 = sha256_hexdigest (encode_utf8 (replace_newlines (strip_ordinal t1)))"
    by (simp add: filename_hash_def generate_sha256_def clean_title_of_def)
next
  assume "replace_newlines (strip_ordinal t1) = replace_newlines (strip_ordinal t2)"
  then show "filename_hash t1 = filename_hash t2" and "text_artifact t1 = text_artifact t2"
    by (simp_all add: filename_hash_def text_artifact_def clean_title_of_def)
next
  assume h: "d1 \<noteq> [] \<and> (\<forall>c\<in>set d1. is_digit c) \<and> d2 \<noteq> [] \<and> (\<forall>c\<in>set d2. is_digit c)
      \<and> replace_newlines s1 = replace_newlines s2"
  then have "clean_title_of (d1 @ '' '' @ s1) = clean_title_of (d2 @ '' '' @ s2)"
    by (simp add: clean_title_of_def strip_ordinal_prefixed)
  then show "filename_hash (d1 @ '' '' @ s1) = filename_hash (d2 @ '' '' @ s2)"
    and "text_artifact (d1 @ '' '' @ s1) = text_artifact (d2 @ '' '' @ s2)"
    by (simp_all add: filename_hash_def text_artifact_def)
next
  assume "\<not> has_ordinal t1 \<and> \<not> has_ordinal t2 \<and> replace_newlines t1 = replace_newlines t2"
  then show "filename_hash t1 = filename_hash t2"
    by (simp add: filename_hash_def clean_title_of_def strip_ordinal_def)
next
  assume h: "d1 \<noteq> [] \<and> (\<forall>c\<in>set d1. is_digit c) \<and> \<not> has_ordinal t2
        \<and> replace_newlines s1 = replace_newlines t2"
  then have "strip_ordinal (d1 @ CHR '' '' # s1) = s1"
    by (simp add: strip_ordinal_prefixed)
  moreover from h have "strip_ordinal t2 = t2"
    by (simp add: strip_ordinal_def)
  moreover from h have "replace_newlines s1 = replace_newlines t2"
    by simp
  ultimately show "filename_hash (d1 @ '' '' @ s1) = filename_hash t2"
    by (simp add: filename_hash_def clean_title_of_def)
next
  assume "replace_newlines r1 = replace_newlines r2"
  then show "filename_hash (annotate_title n i (Some r1))
          = filename_hash (annotate_title m j (Some r2))"
    by (simp add: filename_hash_def clean_title_of_annotated)
next
  have "clean_title_of ''01 Song A'' = clean_title_of ''17 Song A''"
    by (simp add: clean_title_of_def strip_ordinal_def has_ordinal_def is_digit_def)
  then show "filename_hash ''01 Song A'' = filename_hash ''17 Song A''"
    by (simp add: filename_hash_def)
qed

theorem C4_text_key_stable_witness:
  "''01'' \<noteq> [] \<and> list_all is_digit ''01'' \<and> ''17'' \<noteq> [] \<and> list_all is_digit ''17''
   \<and> replace_newlines (''Song'' @ [CHR 0x0A] @ ''A'') = replace_newlines ''Song A''
   \<and> clean_title_of (''01 Song'' @ [CHR 0x0A] @ ''A'') = ''Song A''
   \<and> clean_title_of ''17 Song A'' = ''Song A''
   \<and> \<not> has_ordinal (''Song'' @ [CHR 0x0A] @ ''A'') \<and> \<not> has_ordinal ''Song A''
   \<and> filename_hash (''01 Song'' @ [CHR 0x0A] @ ''A'') = filename_hash ''17 Song A''
   \<and> text_artifact (''01 Song'' @ [CHR 0x0A] @ ''A'') = text_artifact ''17 Song A''
   \<and> filename_hash (''Song'' @ [CHR 0x0A] @ ''A'') = filename_hash ''Song A''
   \<and> filename_hash (''01 Song'' @ [CHR 0x0A] @ ''A'') = filename_hash ''Song A''
   \<and> filename_hash (annotate_title 3 0 (Some (''12'' @ [CHR 0x0A] @ ''abc'')))
       = filename_hash (annotate_title 30 16 (Some ''12 abc''))"
proof -
  have p: "''01'' \<noteq> [] \<and> (\<forall>c\<in>set ''01''. is_digit c) \<and> ''17'' \<noteq> [] \<and> (\<forall>c\<in>set ''17''. is_digit c)"
    by (simp add: is_digit_def)
  have r: "replace_newlines (''Song'' @ [CHR 0x0A] @ ''A'') = replace_newlines ''Song A''"
    by (simp add: replace_newlines_def)
  have r2: "replace_newlines (''12'' @ [CHR 0x0A] @ ''abc'') = replace_newlines ''12 abc''"
    by (simp add: replace_newlines_def)
  have c: "clean_title_of (''01 Song'' @ [CHR 0x0A] @ ''A'') = ''Song A''"
    "clean_title_of ''17 Song A'' = ''Song A''"
    by (simp_all add: clean_title_of_def strip_ordinal_def has_ordinal_def is_digit_def
        replace_newlines_def)
  have n: "\<not> has_ordinal (''Song'' @ [CHR 0x0A] @ ''A'') \<and> \<not> has_ordinal ''Song A''"
    by (simp add: has_ordinal_def is_digit_def)
  have e: "''01'' @ '' '' @ ''Song'' @ [CHR 0x0A] @ ''A'' = ''01 Song'' @ [CHR 0x0A] @ ''A''"
    "''17'' @ '' '' @ ''Song A'' = ''17 Song A''"
    by simp_all
  have "filename_hash (''01 Song'' @ [CHR 0x0A] @ ''A'') = filename_hash ''17 Song A''
      \<and> text_artifact (''01 Song'' @ [CHR 0x0A] @ ''A'') = text_artifact ''17 Song A''
      \<and> filename_hash (''Song'' @ [CHR 0x0A] @ ''A'') = filename_hash ''Song A''
      \<and> filename_hash (''01 Song'' @ [CHR 0x0A] @ ''A'') = filename_hash ''Song A''
      \<and> filename_hash (annotate_title 3 0 (Some (''12'' @ [CHR 0x0A] @ ''abc'')))
                  = filename_hash (annotate_title 30 16 (Some ''12 abc''))"
    using C4_text_key_stable [of "''Song'' @ [CHR 0x0A] @ ''A''" "''Song A''" "''01''" "''17''"
        "''Song'' @ [CHR 0x0A] @ ''A''" "''Song A''"
        "''12'' @ [CHR 0x0A] @ ''abc''" "''12 abc''" 3 0 30 16] p r r2 n
    unfolding e by blast
  moreover have "list_all is_digit ''01'' \<and> list_all is_digit ''17''"
    by (simp add: is_digit_def)
  ultimately show ?thesis using p r c n by blast
qed

end
